theory Spec2Isabelle
  imports Main "HOL-Library.Multiset"
begin

section \<open>BaseBMS: device matching and derived-value calculation\<close>

text \<open>
  A shallow embedding of the class \<open>BaseBMS\<close> of
  \<^verbatim>\<open>custom_components/bms_ble/plugins/seplosv3.py\<close>: the class method
  \<open>supported\<close> (lines 54-62) and the class method \<open>calc_values\<close> with its local
  function \<open>can_calc\<close> (lines 64-93).
\<close>

subsection \<open>Python numbers\<close>

text \<open>
  The dictionary is typed \<^verbatim>\<open>dict[str, int | float | bool]\<close>. A Python \<open>int\<close> is
  unbounded; a \<open>bool\<close> is an \<open>int\<close> that counts as 0 or 1 in arithmetic. A \<open>float\<close> is
  an IEEE 754 binary64 number: \<open>Finite s m e\<close> is \<open>(-1)\<^sup>s * m * 2\<^sup>e\<close> (so that both zeros
  exist), \<open>Infinity s\<close> is the infinity of sign \<open>s\<close>, \<open>NaN\<close> is not-a-number. The
  arithmetic below produces \<open>Finite\<close> values in reduced form: \<open>m\<close> odd, or \<open>m = 0\<close> and
  \<open>e = 0\<close>. For example 12.0 is \<open>Finite False 3 2\<close>, -5.0 is \<open>Finite True 5 0\<close>, 1.5 is
  \<open>Finite False 3 (- 1)\<close> and 0.1 is \<open>Finite False 3602879701896397 (- 55)\<close>. The
  type has more \<open>Finite\<close> values than there are doubles; what is proved below for every
  value holds for the doubles among them.
\<close>

datatype pyfloat = Finite bool nat int | Infinity bool | NaN

datatype pyval = PyBool bool | PyInt int | PyFloat pyfloat

datatype pyerror = KeyError string | ZeroDivisionError | OverflowError | ValueError

text \<open>Evaluation of an expression from its subexpressions, left to right.\<close>

definition bind_err :: "pyerror + 'a \<Rightarrow> ('a \<Rightarrow> pyerror + 'b) \<Rightarrow> pyerror + 'b" where
  "bind_err x f = (case x of Inl e \<Rightarrow> Inl e | Inr v \<Rightarrow> f v)"

subsubsection \<open>Rounding to the nearest double\<close>

text \<open>The number of binary digits of a natural number.\<close>

fun bitlen :: "nat \<Rightarrow> int" where
  "bitlen n = (if n = 0 then 0 else 1 + bitlen (n div 2))"

declare bitlen.simps [simp del]

text \<open>The reduced form of \<open>(-1)\<^sup>s * m * 2\<^sup>e\<close>.\<close>

fun normalize_float :: "bool \<Rightarrow> nat \<Rightarrow> int \<Rightarrow> pyfloat" where
  "normalize_float s m e =
     (if m = 0 then Finite s 0 0
      else if even m then normalize_float s (m div 2) (e + 1)
      else Finite s m e)"

declare normalize_float.simps [simp del]

text \<open>
  The quotient \<open>p / (q * 2\<^sup>u)\<close> as a quotient of natural numbers, for \<open>u\<close> of either
  sign: \<open>scaled_num p u / scaled_den q u\<close>.
\<close>

definition scaled_num :: "nat \<Rightarrow> int \<Rightarrow> nat" where
  "scaled_num p u = (if u < 0 then p * 2 ^ nat (- u) else p)"

definition scaled_den :: "nat \<Rightarrow> int \<Rightarrow> nat" where
  "scaled_den q u = (if u < 0 then q else q * 2 ^ nat u)"

text \<open>
  \<open>floor_log2 p q\<close> is the exponent \<open>E\<close> with \<open>2\<^sup>E \<le> p / q < 2\<^bsup>E+1\<^esup>\<close>, for positive \<open>p\<close>
  and \<open>q\<close>: the difference \<open>d\<close> of the bit lengths, or one less.
\<close>

definition pick_exponent :: "nat \<Rightarrow> nat \<Rightarrow> int \<Rightarrow> int" where
  "pick_exponent p q d = (if scaled_den q d \<le> scaled_num p d then d else d - 1)"

definition floor_log2 :: "nat \<Rightarrow> nat \<Rightarrow> int" where
  "floor_log2 p q = pick_exponent p q (bitlen p - bitlen q)"

text \<open>
  The exponent of the unit in the last place of a double with \<open>2\<^sup>E \<le> |x| < 2\<^bsup>E+1\<^esup>\<close>: 53
  significant bits, and never below the subnormal spacing \<open>2\<^bsup>-1074\<^esup>\<close>.
\<close>

definition ulp_exponent :: "int \<Rightarrow> int" where
  "ulp_exponent E = max (E - 52) (- 1074)"

text \<open>
  The integer nearest to \<open>N / D\<close>, a tie going to the even one, from the quotient \<open>n\<close> and
  the remainder \<open>r\<close> of the division.
\<close>

definition nearest_even :: "nat \<Rightarrow> nat \<Rightarrow> nat \<Rightarrow> nat" where
  "nearest_even n r D = (if D < 2 * r \<or> (2 * r = D \<and> odd n) then n + 1 else n)"

definition round_half_even :: "nat \<Rightarrow> nat \<Rightarrow> nat" where
  "round_half_even N D = nearest_even (N div D) (N mod D) D"

text \<open>A result of magnitude \<open>2\<^bsup>1024\<^esup>\<close> or more is an infinity.\<close>

definition pack_float :: "bool \<Rightarrow> nat \<Rightarrow> int \<Rightarrow> pyfloat" where
  "pack_float s n u = (if 1024 < bitlen n + u then Infinity s else normalize_float s n u)"

definition round_with_ulp :: "bool \<Rightarrow> nat \<Rightarrow> nat \<Rightarrow> int \<Rightarrow> pyfloat" where
  "round_with_ulp s p q u = pack_float s (round_half_even (scaled_num p u) (scaled_den q u)) u"

text \<open>
  \<open>round_ratio s p q\<close> is the double nearest to the exact number \<open>(-1)\<^sup>s * p / q\<close>
  (\<open>q\<close> positive), ties to even: the rounding of every arithmetic operation on doubles and
  of the conversion of an \<open>int\<close>.
\<close>

definition round_ratio :: "bool \<Rightarrow> nat \<Rightarrow> nat \<Rightarrow> pyfloat" where
  "round_ratio s p q =
     (if p = 0 then Finite s 0 0
      else round_with_ulp s p q (ulp_exponent (floor_log2 p q)))"

text \<open>
  The double that a decimal literal denotes: Python reads a literal \<open>p / q\<close> (such as
  \<open>0.1\<close>, which is \<open>1 / 10\<close>) as the double nearest to it.
\<close>

definition float_literal :: "int \<Rightarrow> nat \<Rightarrow> pyfloat" where
  "float_literal p q = round_ratio (p < 0) (nat \<bar>p\<bar>) q"

subsubsection \<open>Operations on floats\<close>

text \<open>
  \<^verbatim>\<open>float(i)\<close> as the operators apply it to an \<open>int\<close> operand: correctly rounded, and
  \<open>OverflowError\<close> ("int too large to convert to float") when the result is not finite.
\<close>

definition int_to_float :: "int \<Rightarrow> pyerror + pyfloat" where
  "int_to_float i =
     (case round_ratio (i < 0) (nat \<bar>i\<bar>) 1 of
        Infinity s \<Rightarrow> Inl OverflowError
      | f \<Rightarrow> Inr f)"

text \<open>The product of two doubles: exact product, rounded; it never raises.\<close>

fun float_mul :: "pyfloat \<Rightarrow> pyfloat \<Rightarrow> pyfloat" where
  "float_mul NaN y = NaN"
| "float_mul x NaN = NaN"
| "float_mul (Infinity s) (Infinity t) = Infinity (s \<noteq> t)"
| "float_mul (Infinity s) (Finite t n f) = (if n = 0 then NaN else Infinity (s \<noteq> t))"
| "float_mul (Finite s m e) (Infinity t) = (if m = 0 then NaN else Infinity (s \<noteq> t))"
| "float_mul (Finite s m e) (Finite t n f) =
     round_ratio (s \<noteq> t) (scaled_num (m * n) (- (e + f))) (scaled_den 1 (- (e + f)))"

text \<open>The quotient of two doubles, for a divisor that is not zero.\<close>

fun float_div :: "pyfloat \<Rightarrow> pyfloat \<Rightarrow> pyfloat" where
  "float_div NaN y = NaN"
| "float_div x NaN = NaN"
| "float_div (Infinity s) (Infinity t) = NaN"
| "float_div (Infinity s) (Finite t n f) = Infinity (s \<noteq> t)"
| "float_div (Finite s m e) (Infinity t) = Finite (s \<noteq> t) 0 0"
| "float_div (Finite s m e) (Finite t n f) =
     round_ratio (s \<noteq> t) (scaled_num m (f - e)) (scaled_den n (f - e))"

fun float_is_zero :: "pyfloat \<Rightarrow> bool" where
  "float_is_zero (Finite s m e) = (m = 0)"
| "float_is_zero (Infinity s) = False"
| "float_is_zero NaN = False"

fun float_abs :: "pyfloat \<Rightarrow> pyfloat" where
  "float_abs (Finite s m e) = Finite False m e"
| "float_abs (Infinity s) = Infinity False"
| "float_abs NaN = NaN"

text \<open>
  \<^verbatim>\<open>int(x)\<close> of a float: truncation towards zero; \<open>OverflowError\<close> for an infinity and
  \<open>ValueError\<close> for NaN.
\<close>

fun float_trunc :: "pyfloat \<Rightarrow> pyerror + int" where
  "float_trunc (Finite s m e) =
     Inr ((if s then - 1 else 1) *
          (if 0 \<le> e then int m * 2 ^ nat e else int m div 2 ^ nat (- e)))"
| "float_trunc (Infinity s) = Inl OverflowError"
| "float_trunc NaN = Inl ValueError"

subsubsection \<open>The operators of Python on \<open>int\<close>, \<open>bool\<close> and \<open>float\<close>\<close>

text \<open>The integer a value of type \<open>bool\<close> or \<open>int\<close> stands for; a float has none.\<close>

fun as_int :: "pyval \<Rightarrow> int option" where
  "as_int (PyBool b) = Some (if b then 1 else 0)"
| "as_int (PyInt i) = Some i"
| "as_int (PyFloat x) = None"

text \<open>An operand of a float operation: an \<open>int\<close> or \<open>bool\<close> operand is converted.\<close>

fun as_float :: "pyval \<Rightarrow> pyerror + pyfloat" where
  "as_float (PyBool b) = int_to_float (if b then 1 else 0)"
| "as_float (PyInt i) = int_to_float i"
| "as_float (PyFloat x) = Inr x"

text \<open>
  \<^verbatim>\<open>a * b\<close>: the exact \<open>int\<close> product when both operands are \<open>int\<close> or \<open>bool\<close>, the
  rounded \<open>float\<close> product otherwise.
\<close>

definition py_mul :: "pyval \<Rightarrow> pyval \<Rightarrow> pyerror + pyval" where
  "py_mul a b =
     (case (as_int a, as_int b) of
        (Some i, Some j) \<Rightarrow> Inr (PyInt (i * j))
      | _ \<Rightarrow> bind_err (as_float a) (\<lambda>x. bind_err (as_float b) (\<lambda>y.
               Inr (PyFloat (float_mul x y)))))"

text \<open>
  \<^verbatim>\<open>a / b\<close>: true division, always a \<open>float\<close>. Of two \<open>int\<close>s it is the exact quotient
  rounded once, with \<open>OverflowError\<close> ("integer division result too large for a float")
  when that is not finite. A zero divisor raises \<open>ZeroDivisionError\<close>.
\<close>

definition py_truediv :: "pyval \<Rightarrow> pyval \<Rightarrow> pyerror + pyval" where
  "py_truediv a b =
     (case (as_int a, as_int b) of
        (Some i, Some j) \<Rightarrow>
          if j = 0 then Inl ZeroDivisionError
          else (case round_ratio ((i < 0) \<noteq> (j < 0)) (nat \<bar>i\<bar>) (nat \<bar>j\<bar>) of
                  Infinity s \<Rightarrow> Inl OverflowError
                | q \<Rightarrow> Inr (PyFloat q))
      | _ \<Rightarrow> bind_err (as_float a) (\<lambda>x. bind_err (as_float b) (\<lambda>y.
               if float_is_zero y then Inl ZeroDivisionError
               else Inr (PyFloat (float_div x y)))))"

text \<open>\<^verbatim>\<open>abs(a)\<close>: an \<open>int\<close> for \<open>int\<close> and \<open>bool\<close>, a \<open>float\<close> for a \<open>float\<close>.\<close>

fun py_abs :: "pyval \<Rightarrow> pyval" where
  "py_abs (PyBool b) = PyInt (if b then 1 else 0)"
| "py_abs (PyInt i) = PyInt \<bar>i\<bar>"
| "py_abs (PyFloat x) = PyFloat (float_abs x)"

text \<open>\<^verbatim>\<open>int(a)\<close>.\<close>

fun py_int :: "pyval \<Rightarrow> pyerror + pyval" where
  "py_int (PyBool b) = Inr (PyInt (if b then 1 else 0))"
| "py_int (PyInt i) = Inr (PyInt i)"
| "py_int (PyFloat x) = bind_err (float_trunc x) (\<lambda>k. Inr (PyInt k))"

text \<open>
  \<^verbatim>\<open>a < b\<close> and \<^verbatim>\<open>a > b\<close>: Python compares numbers of mixed type by their exact
  values; every comparison with NaN is false. \<open>Dyadic k e\<close> is the number \<open>k * 2\<^sup>e\<close>.
\<close>

datatype exact = MinusInf | Dyadic int int | PlusInf | Unordered

fun exact_of :: "pyval \<Rightarrow> exact" where
  "exact_of (PyBool b) = Dyadic (if b then 1 else 0) 0"
| "exact_of (PyInt i) = Dyadic i 0"
| "exact_of (PyFloat (Finite s m e)) = Dyadic (if s then - int m else int m) e"
| "exact_of (PyFloat (Infinity s)) = (if s then MinusInf else PlusInf)"
| "exact_of (PyFloat NaN) = Unordered"

fun exact_less :: "exact \<Rightarrow> exact \<Rightarrow> bool" where
  "exact_less Unordered y = False"
| "exact_less x Unordered = False"
| "exact_less x MinusInf = False"
| "exact_less MinusInf y = True"
| "exact_less PlusInf y = False"
| "exact_less x PlusInf = True"
| "exact_less (Dyadic k e) (Dyadic l f) =
     (k * 2 ^ nat (e - min e f) < l * 2 ^ nat (f - min e f))"

definition py_lt :: "pyval \<Rightarrow> pyval \<Rightarrow> bool" where
  "py_lt a b = exact_less (exact_of a) (exact_of b)"

definition py_gt :: "pyval \<Rightarrow> pyval \<Rightarrow> bool" where
  "py_gt a b = exact_less (exact_of b) (exact_of a)"

subsection \<open>Constants the module imports\<close>

text \<open>
  Modelled from the spec: the keys \<open>ATTR_*\<close> are imported from \<^verbatim>\<open>..const\<close>, which is
  not among the sources. The spec names the fixed vocabulary of the measurement mapping:
  voltage, current, cycle-charge, cycle-capacity, power, charging-flag, runtime. Each
  constant is the string of its name there; only their being pairwise different matters
  below.
\<close>

definition ATTR_VOLTAGE :: string where "ATTR_VOLTAGE = ''voltage''"
definition ATTR_CURRENT :: string where "ATTR_CURRENT = ''current''"
definition ATTR_CYCLE_CHRG :: string where "ATTR_CYCLE_CHRG = ''cycle-charge''"
definition ATTR_CYCLE_CAP :: string where "ATTR_CYCLE_CAP = ''cycle-capacity''"
definition ATTR_POWER :: string where "ATTR_POWER = ''power''"
definition ATTR_BATTERY_CHARGING :: string where "ATTR_BATTERY_CHARGING = ''charging-flag''"
definition ATTR_RUNTIME :: string where "ATTR_RUNTIME = ''runtime''"

text \<open>
  Modelled from the spec: \<open>_HRS_TO_SECS\<close> is imported from the host's unit conversion
  module; the spec gives the factor of the runtime rule as 3600, an \<open>int\<close>.
\<close>

definition HRS_TO_SECS :: pyval where "HRS_TO_SECS = PyInt 3600"

subsection \<open>The measurement mapping and statements on it\<close>

type_synonym bmsdata = "string \<rightharpoonup> pyval"

text \<open>
  \<open>calc_values\<close> mutates \<open>data\<close> in place and returns nothing. A statement of its body is
  a function from the mapping to the mapping it leaves, together with how it ended: when
  an exception is raised the assignments made before it stay in the caller's dictionary.
\<close>

datatype outcome = Normal | Raised pyerror

type_synonym stmt = "bmsdata \<Rightarrow> outcome \<times> bmsdata"

text \<open>\<^verbatim>\<open>data[k]\<close> raises \<open>KeyError\<close> on a missing key.\<close>

definition getitem :: "bmsdata \<Rightarrow> string \<Rightarrow> pyerror + pyval" where
  "getitem data k = (case data k of None \<Rightarrow> Inl (KeyError k) | Some v \<Rightarrow> Inr v)"

text \<open>\<^verbatim>\<open>data[k] = <expression>\<close>: nothing is stored when the expression raises.\<close>

definition assign :: "string \<Rightarrow> pyerror + pyval \<Rightarrow> stmt" where
  "assign k x data =
     (case x of Inl e \<Rightarrow> (Raised e, data) | Inr v \<Rightarrow> (Normal, data(k \<mapsto> v)))"

text \<open>Two statements in sequence: the second runs only when the first did not raise.\<close>

definition then_stmt :: "stmt \<Rightarrow> stmt \<Rightarrow> stmt" where
  "then_stmt s t data =
     (case s data of (Normal, d) \<Rightarrow> t d | (Raised e, d) \<Rightarrow> (Raised e, d))"

subsection \<open>calc_values\<close>

text \<open>
  \<open>can_calc\<close> (lines 72-74) is a closure over \<open>data\<close> and \<open>values\<close>; it reads the
  dictionary as it is when called.
\<close>

definition can_calc :: "bmsdata \<Rightarrow> string set \<Rightarrow> string \<Rightarrow> string set \<Rightarrow> bool" where
  "can_calc data values value using \<longleftrightarrow>
     value \<in> values \<and> value \<notin> dom data \<and> using \<subseteq> dom data"

text \<open>Lines 77-78: cycle capacity from voltage and cycle charge.\<close>

definition calc_cycle_cap :: "string set \<Rightarrow> stmt" where
  "calc_cycle_cap values data =
     (if can_calc data values ATTR_CYCLE_CAP {ATTR_VOLTAGE, ATTR_CYCLE_CHRG} then
        assign ATTR_CYCLE_CAP
          (bind_err (getitem data ATTR_VOLTAGE) (\<lambda>v.
           bind_err (getitem data ATTR_CYCLE_CHRG) (\<lambda>c.
           py_mul v c))) data
      else (Normal, data))"

text \<open>Lines 81-82: power from voltage and current.\<close>

definition calc_power :: "string set \<Rightarrow> stmt" where
  "calc_power values data =
     (if can_calc data values ATTR_POWER {ATTR_VOLTAGE, ATTR_CURRENT} then
        assign ATTR_POWER
          (bind_err (getitem data ATTR_VOLTAGE) (\<lambda>v.
           bind_err (getitem data ATTR_CURRENT) (\<lambda>c.
           py_mul v c))) data
      else (Normal, data))"

text \<open>Lines 85-86: the charge indicator from the current.\<close>

definition calc_charging :: "string set \<Rightarrow> stmt" where
  "calc_charging values data =
     (if can_calc data values ATTR_BATTERY_CHARGING {ATTR_CURRENT} then
        assign ATTR_BATTERY_CHARGING
          (bind_err (getitem data ATTR_CURRENT) (\<lambda>c.
           Inr (PyBool (py_gt c (PyInt 0))))) data
      else (Normal, data))"

text \<open>Lines 89-93: the runtime from current and cycle charge, when the current is negative.\<close>

definition calc_runtime :: "string set \<Rightarrow> stmt" where
  "calc_runtime values data =
     (if can_calc data values ATTR_RUNTIME {ATTR_CURRENT, ATTR_CYCLE_CHRG} then
        (case bind_err (getitem data ATTR_CURRENT) (\<lambda>c. Inr (py_lt c (PyInt 0))) of
           Inl e \<Rightarrow> (Raised e, data)
         | Inr True \<Rightarrow>
             assign ATTR_RUNTIME
               (bind_err (getitem data ATTR_CYCLE_CHRG) (\<lambda>c.
                bind_err (getitem data ATTR_CURRENT) (\<lambda>i.
                bind_err (py_truediv c (py_abs i)) (\<lambda>q.
                bind_err (py_mul q HRS_TO_SECS) (\<lambda>t.
                py_int t))))) data
         | Inr False \<Rightarrow> (Normal, data))
      else (Normal, data))"

definition calc_values :: "bmsdata \<Rightarrow> string set \<Rightarrow> outcome \<times> bmsdata" where
  "calc_values data values =
     then_stmt (calc_cycle_cap values)
       (then_stmt (calc_power values)
         (then_stmt (calc_charging values)
           (calc_runtime values))) data"

subsection \<open>The rules of calc_values, one at a time\<close>

text \<open>
  The four \<open>if\<close> statements of the body, named, so that they can be run in another order
  than the source's. \<open>rule_target\<close> is the key a statement assigns and checks for absence,
  \<open>rule_using\<close> the set of keys it passes to \<open>can_calc\<close> and reads on its right-hand
  side.
\<close>

datatype rule = CycleCap | Power | Charging | Runtime

fun apply_rule :: "rule \<Rightarrow> string set \<Rightarrow> stmt" where
  "apply_rule CycleCap = calc_cycle_cap"
| "apply_rule Power = calc_power"
| "apply_rule Charging = calc_charging"
| "apply_rule Runtime = calc_runtime"

fun rule_target :: "rule \<Rightarrow> string" where
  "rule_target CycleCap = ATTR_CYCLE_CAP"
| "rule_target Power = ATTR_POWER"
| "rule_target Charging = ATTR_BATTERY_CHARGING"
| "rule_target Runtime = ATTR_RUNTIME"

fun rule_using :: "rule \<Rightarrow> string set" where
  "rule_using CycleCap = {ATTR_VOLTAGE, ATTR_CYCLE_CHRG}"
| "rule_using Power = {ATTR_VOLTAGE, ATTR_CURRENT}"
| "rule_using Charging = {ATTR_CURRENT}"
| "rule_using Runtime = {ATTR_CURRENT, ATTR_CYCLE_CHRG}"

fun run_rules :: "rule list \<Rightarrow> string set \<Rightarrow> stmt" where
  "run_rules [] values = (\<lambda>data. (Normal, data))"
| "run_rules (r # rs) values = then_stmt (apply_rule r values) (run_rules rs values)"

subsection \<open>supported\<close>

text \<open>
  Lines 54-62. \<open>matcher_dict_list\<close> is abstract in \<open>BaseBMS\<close>, and
  \<open>BluetoothMatcherOptional\<close> and \<open>ble_device_matches\<close> belong to the host: the three
  are parameters here, the last two as total functions. The loop returns at the first
  matcher that matches.
\<close>

fun supported :: "('m \<Rightarrow> 'd \<Rightarrow> bool) \<Rightarrow> ('k \<Rightarrow> 'm) \<Rightarrow> 'k list \<Rightarrow> 'd \<Rightarrow> bool" where
  "supported ble_device_matches BluetoothMatcherOptional [] discovery_info = False"
| "supported ble_device_matches BluetoothMatcherOptional (matcher_dict # rest) discovery_info =
     (if ble_device_matches (BluetoothMatcherOptional matcher_dict) discovery_info then True
      else supported ble_device_matches BluetoothMatcherOptional rest discovery_info)"

section \<open>Basic facts\<close>

lemmas attr_defs = ATTR_VOLTAGE_def ATTR_CURRENT_def ATTR_CYCLE_CHRG_def ATTR_CYCLE_CAP_def
  ATTR_POWER_def ATTR_BATTERY_CHARGING_def ATTR_RUNTIME_def

lemma attr_neq [simp]:
  "ATTR_VOLTAGE \<noteq> ATTR_CURRENT" "ATTR_VOLTAGE \<noteq> ATTR_CYCLE_CHRG"
  "ATTR_VOLTAGE \<noteq> ATTR_CYCLE_CAP" "ATTR_VOLTAGE \<noteq> ATTR_POWER"
  "ATTR_VOLTAGE \<noteq> ATTR_BATTERY_CHARGING" "ATTR_VOLTAGE \<noteq> ATTR_RUNTIME"
  "ATTR_CURRENT \<noteq> ATTR_CYCLE_CHRG" "ATTR_CURRENT \<noteq> ATTR_CYCLE_CAP"
  "ATTR_CURRENT \<noteq> ATTR_POWER" "ATTR_CURRENT \<noteq> ATTR_BATTERY_CHARGING"
  "ATTR_CURRENT \<noteq> ATTR_RUNTIME"
  "ATTR_CYCLE_CHRG \<noteq> ATTR_CYCLE_CAP" "ATTR_CYCLE_CHRG \<noteq> ATTR_POWER"
  "ATTR_CYCLE_CHRG \<noteq> ATTR_BATTERY_CHARGING" "ATTR_CYCLE_CHRG \<noteq> ATTR_RUNTIME"
  "ATTR_CYCLE_CAP \<noteq> ATTR_POWER" "ATTR_CYCLE_CAP \<noteq> ATTR_BATTERY_CHARGING"
  "ATTR_CYCLE_CAP \<noteq> ATTR_RUNTIME"
  "ATTR_POWER \<noteq> ATTR_BATTERY_CHARGING" "ATTR_POWER \<noteq> ATTR_RUNTIME"
  "ATTR_BATTERY_CHARGING \<noteq> ATTR_RUNTIME"
  by (simp_all add: attr_defs)

lemmas attr_neq_sym [simp] = attr_neq [symmetric]

subsection \<open>bit length and rounding never give zero from a positive integer\<close>

lemma bitlen_nonneg: "0 \<le> bitlen n"
  by (induction n rule: bitlen.induct) (subst bitlen.simps, simp)

lemma bitlen_pos: "0 < n \<Longrightarrow> 1 \<le> bitlen n"
  using bitlen_nonneg [of "n div 2"] by (subst bitlen.simps) simp

lemma bitlen_lower: "0 < n \<Longrightarrow> 2 ^ nat (bitlen n - 1) \<le> n"
proof (induction n rule: bitlen.induct)
  case (1 n)
  show ?case
  proof (cases "n div 2 = 0")
    case True
    with "1.prems" have "n = 1" by auto
    then show ?thesis by (simp add: bitlen.simps)
  next
    case False
    then have h: "0 < n div 2" by simp
    with "1.IH" "1.prems" have ih: "2 ^ nat (bitlen (n div 2) - 1) \<le> n div 2" by simp
    have b: "bitlen n = 1 + bitlen (n div 2)"
      using "1.prems" by (subst bitlen.simps) simp
    have p: "1 \<le> bitlen (n div 2)" using h by (rule bitlen_pos)
    then have "nat (bitlen n - 1) = Suc (nat (bitlen (n div 2) - 1))"
      using b by simp
    then have "(2::nat) ^ nat (bitlen n - 1) = 2 * 2 ^ nat (bitlen (n div 2) - 1)"
      by simp
    also have "\<dots> \<le> 2 * (n div 2)" using ih by simp
    also have "\<dots> \<le> n" by simp
    finally show ?thesis .
  qed
qed

lemma normalize_float_nonzero:
  "m \<noteq> 0 \<Longrightarrow> \<not> float_is_zero (normalize_float s m e)"
proof (induction s m e rule: normalize_float.induct)
  case (1 s m e)
  show ?case
  proof (cases "even m")
    case True
    with "1.prems" have "m div 2 \<noteq> 0" by auto
    with "1.IH" "1.prems" True have "\<not> float_is_zero (normalize_float s (m div 2) (e + 1))"
      by simp
    with "1.prems" True show ?thesis by (subst normalize_float.simps) simp
  next
    case False
    with "1.prems" show ?thesis by (subst normalize_float.simps) simp
  qed
qed

lemma round_with_ulp_nonzero:
  assumes "0 < q" "scaled_den q u \<le> scaled_num p u"
  shows "\<not> float_is_zero (round_with_ulp s p q u)"
proof -
  have d: "0 < scaled_den q u" using assms(1) by (simp add: scaled_den_def)
  then have "1 \<le> scaled_num p u div scaled_den q u"
    using assms(2) by (simp add: Suc_le_eq div_greater_zero_iff)
  then have "round_half_even (scaled_num p u) (scaled_den q u) \<noteq> 0"
    by (auto simp: round_half_even_def nearest_even_def)
  then show ?thesis
    by (simp add: round_with_ulp_def pack_float_def normalize_float_nonzero)
qed

lemma round_int_nonzero:
  assumes "0 < p"
  shows "\<not> float_is_zero (round_ratio s p 1)"
proof -
  let ?u = "ulp_exponent (floor_log2 p 1)"
  have b1: "bitlen (Suc 0) = 1" by (simp add: bitlen.simps)
  have "floor_log2 p 1 \<le> bitlen p - 1"
    by (simp add: floor_log2_def pick_exponent_def b1)
  then have u: "?u \<le> bitlen p - 1 \<or> ?u < 0"
    by (auto simp: ulp_exponent_def max_def)
  have "scaled_den 1 ?u \<le> scaled_num p ?u"
  proof (cases "?u < 0")
    case True
    then show ?thesis using assms by (simp add: scaled_den_def scaled_num_def)
  next
    case False
    with u have "nat ?u \<le> nat (bitlen p - 1)" by simp
    then have "(2::nat) ^ nat ?u \<le> 2 ^ nat (bitlen p - 1)"
      by (simp add: power_increasing)
    also have "\<dots> \<le> p" using assms by (rule bitlen_lower)
    finally show ?thesis using False by (simp add: scaled_den_def scaled_num_def)
  qed
  then have "\<not> float_is_zero (round_with_ulp s p 1 ?u)"
    by (intro round_with_ulp_nonzero) simp_all
  with assms show ?thesis by (simp add: round_ratio_def)
qed

lemma int_to_float_nonzero:
  assumes "i \<noteq> 0" "int_to_float i = Inr y"
  shows "\<not> float_is_zero y"
proof -
  have "0 < nat \<bar>i\<bar>" using assms(1) by simp
  then have n: "\<not> float_is_zero (round_ratio (i < 0) (nat \<bar>i\<bar>) 1)"
    by (rule round_int_nonzero)
  from assms(2) have "y = round_ratio (i < 0) (nat \<bar>i\<bar>) 1"
    by (cases "round_ratio (i < 0) (nat \<bar>i\<bar>) 1") (simp_all add: int_to_float_def)
  with n show ?thesis by simp
qed

subsection \<open>Which errors the operators raise\<close>

lemma int_to_float_error: "int_to_float i = Inl e \<Longrightarrow> e = OverflowError"
  by (auto simp: int_to_float_def split: pyfloat.splits)

lemma as_float_error: "as_float a = Inl e \<Longrightarrow> e = OverflowError"
  by (cases a) (auto dest: int_to_float_error)

lemma py_mul_error: "py_mul a b = Inl e \<Longrightarrow> e = OverflowError"
  by (auto simp: py_mul_def bind_err_def split: option.splits sum.splits dest: as_float_error)

lemma py_int_error: "py_int a = Inl e \<Longrightarrow> e = OverflowError \<or> e = ValueError"
proof (cases a)
  case (PyFloat x)
  assume "py_int a = Inl e"
  with PyFloat show ?thesis by (cases x) (auto simp: bind_err_def)
qed simp_all

lemma py_lt_zero_cases:
  assumes "py_lt i (PyInt 0)"
  shows "(\<exists>k. i = PyInt k \<and> k < 0) \<or> (\<exists>m e. i = PyFloat (Finite True m e) \<and> m \<noteq> 0)
    \<or> i = PyFloat (Infinity True)"
proof (cases i)
  case (PyBool b)
  with assms show ?thesis by (simp add: py_lt_def split: if_splits)
next
  case (PyInt k)
  with assms show ?thesis by (simp add: py_lt_def)
next
  case (PyFloat x)
  with assms show ?thesis
    by (cases x) (auto simp: py_lt_def zero_less_mult_iff mult_less_0_iff split: if_splits)
qed

lemma py_truediv_abs_error:
  assumes "py_lt i (PyInt 0)" "py_truediv c (py_abs i) = Inl e"
  shows "e = OverflowError"
proof -
  from assms(1) py_lt_zero_cases consider
    k where "i = PyInt k" "k < 0"
    | m x where "i = PyFloat (Finite True m x)" "m \<noteq> 0"
    | "i = PyFloat (Infinity True)"
    by blast
  then show ?thesis
  proof cases
    case 1
    then have k: "\<bar>k\<bar> \<noteq> 0" by simp
    show ?thesis
    proof (cases "as_int c")
      case None
      with assms(2) 1 have t:
        "bind_err (as_float c) (\<lambda>x. bind_err (int_to_float \<bar>k\<bar>) (\<lambda>y.
           if float_is_zero y then Inl ZeroDivisionError
           else Inr (PyFloat (float_div x y)))) = Inl e"
        by (simp add: py_truediv_def)
      show ?thesis
      proof (cases "as_float c")
        case (Inl a)
        with t show ?thesis by (auto simp: bind_err_def dest: as_float_error)
      next
        case x: (Inr x)
        show ?thesis
        proof (cases "int_to_float \<bar>k\<bar>")
          case (Inl a)
          with t x show ?thesis by (auto simp: bind_err_def dest: int_to_float_error)
        next
          case (Inr y)
          with k have "\<not> float_is_zero y" by (rule int_to_float_nonzero)
          with t x Inr show ?thesis by (simp add: bind_err_def)
        qed
      qed
    next
      case (Some j)
      with assms(2) 1 show ?thesis
        by (auto simp: py_truediv_def split: pyfloat.splits if_splits)
    qed
  next
    case 2
    with assms(2) show ?thesis
      by (auto simp: py_truediv_def bind_err_def split: option.splits sum.splits if_splits
          dest: as_float_error)
  next
    case 3
    with assms(2) show ?thesis
      by (auto simp: py_truediv_def bind_err_def split: option.splits sum.splits if_splits
          dest: as_float_error)
  qed
qed

subsection \<open>The four statements\<close>

lemma calc_cycle_cap_eq:
  "calc_cycle_cap values data =
     (if can_calc data values ATTR_CYCLE_CAP {ATTR_VOLTAGE, ATTR_CYCLE_CHRG}
      then assign ATTR_CYCLE_CAP
             (py_mul (the (data ATTR_VOLTAGE)) (the (data ATTR_CYCLE_CHRG))) data
      else (Normal, data))"
  by (auto simp: calc_cycle_cap_def can_calc_def bind_err_def getitem_def)

lemma calc_power_eq:
  "calc_power values data =
     (if can_calc data values ATTR_POWER {ATTR_VOLTAGE, ATTR_CURRENT}
      then assign ATTR_POWER
             (py_mul (the (data ATTR_VOLTAGE)) (the (data ATTR_CURRENT))) data
      else (Normal, data))"
  by (auto simp: calc_power_def can_calc_def bind_err_def getitem_def)

lemma calc_charging_eq:
  "calc_charging values data =
     (if can_calc data values ATTR_BATTERY_CHARGING {ATTR_CURRENT}
      then assign ATTR_BATTERY_CHARGING
             (Inr (PyBool (py_gt (the (data ATTR_CURRENT)) (PyInt 0)))) data
      else (Normal, data))"
  by (auto simp: calc_charging_def can_calc_def bind_err_def getitem_def)

lemma calc_runtime_eq:
  "calc_runtime values data =
     (if can_calc data values ATTR_RUNTIME {ATTR_CURRENT, ATTR_CYCLE_CHRG}
         \<and> py_lt (the (data ATTR_CURRENT)) (PyInt 0)
      then assign ATTR_RUNTIME
             (bind_err (py_truediv (the (data ATTR_CYCLE_CHRG)) (py_abs (the (data ATTR_CURRENT))))
                (\<lambda>q. bind_err (py_mul q HRS_TO_SECS) py_int)) data
      else (Normal, data))"
  by (auto simp: calc_runtime_def can_calc_def bind_err_def getitem_def)

lemma runtime_expr_error:
  assumes "py_lt i (PyInt 0)"
    "bind_err (py_truediv c (py_abs i)) (\<lambda>q. bind_err (py_mul q HRS_TO_SECS) py_int) = Inl e"
  shows "e = OverflowError \<or> e = ValueError"
  using assms
  by (auto simp: bind_err_def split: sum.splits
      dest: py_truediv_abs_error py_mul_error py_int_error)

lemma can_calc_cong:
  "d' t = d t \<Longrightarrow> (\<And>k. k \<in> u \<Longrightarrow> d' k = d k) \<Longrightarrow> can_calc d' values t u = can_calc d values t u"
  by (auto simp: can_calc_def dom_def subset_iff)

text \<open>
  What a rule does is fixed by the keys it reads: on every mapping that agrees with
  \<open>d\<close> on the target and the used keys, the rule either does nothing or assigns the
  same result to its target.
\<close>

lemma apply_rule_form:
  "\<exists>g x. (\<forall>d'. (\<forall>k \<in> insert (rule_target r) (rule_using r). d' k = d k)
             \<longrightarrow> apply_rule r values d' = (if g then assign (rule_target r) x d' else (Normal, d')))
     \<and> (g \<longrightarrow> rule_target r \<in> values \<and> d (rule_target r) = None \<and> rule_using r \<subseteq> dom d)
     \<and> (\<forall>e. x = Inl e \<longrightarrow> e = OverflowError \<or> e = ValueError)"
proof (cases r)
  case CycleCap
  let ?g = "can_calc d values ATTR_CYCLE_CAP {ATTR_VOLTAGE, ATTR_CYCLE_CHRG}"
  let ?x = "py_mul (the (d ATTR_VOLTAGE)) (the (d ATTR_CYCLE_CHRG))"
  have "apply_rule r values d' = (if ?g then assign (rule_target r) ?x d' else (Normal, d'))"
    if a: "\<forall>k \<in> insert (rule_target r) (rule_using r). d' k = d k" for d'
  proof -
    from a CycleCap have v: "d' ATTR_VOLTAGE = d ATTR_VOLTAGE" "d' ATTR_CYCLE_CHRG = d ATTR_CYCLE_CHRG"
      by simp_all
    from a CycleCap have c: "can_calc d' values ATTR_CYCLE_CAP {ATTR_VOLTAGE, ATTR_CYCLE_CHRG} = can_calc d values ATTR_CYCLE_CAP {ATTR_VOLTAGE, ATTR_CYCLE_CHRG}"
      by (intro can_calc_cong) auto
    show ?thesis
      using CycleCap by (simp add: calc_cycle_cap_eq c v)
  qed
  moreover have "?g \<longrightarrow> rule_target r \<in> values \<and> d (rule_target r) = None \<and> rule_using r \<subseteq> dom d"
    using CycleCap by (auto simp: can_calc_def)
  moreover have "\<forall>e. ?x = Inl e \<longrightarrow> e = OverflowError \<or> e = ValueError"
    by (auto dest: py_mul_error)
  ultimately show ?thesis by blast
next
  case Power
  let ?g = "can_calc d values ATTR_POWER {ATTR_VOLTAGE, ATTR_CURRENT}"
  let ?x = "py_mul (the (d ATTR_VOLTAGE)) (the (d ATTR_CURRENT))"
  have "apply_rule r values d' = (if ?g then assign (rule_target r) ?x d' else (Normal, d'))"
    if a: "\<forall>k \<in> insert (rule_target r) (rule_using r). d' k = d k" for d'
  proof -
    from a Power have v: "d' ATTR_VOLTAGE = d ATTR_VOLTAGE" "d' ATTR_CURRENT = d ATTR_CURRENT"
      by simp_all
    from a Power have c: "can_calc d' values ATTR_POWER {ATTR_VOLTAGE, ATTR_CURRENT} = can_calc d values ATTR_POWER {ATTR_VOLTAGE, ATTR_CURRENT}"
      by (intro can_calc_cong) auto
    show ?thesis
      using Power by (simp add: calc_power_eq c v)
  qed
  moreover have "?g \<longrightarrow> rule_target r \<in> values \<and> d (rule_target r) = None \<and> rule_using r \<subseteq> dom d"
    using Power by (auto simp: can_calc_def)
  moreover have "\<forall>e. ?x = Inl e \<longrightarrow> e = OverflowError \<or> e = ValueError"
    by (auto dest: py_mul_error)
  ultimately show ?thesis by blast
next
  case Charging
  let ?g = "can_calc d values ATTR_BATTERY_CHARGING {ATTR_CURRENT}"
  let ?x = "Inr (PyBool (py_gt (the (d ATTR_CURRENT)) (PyInt 0))) :: pyerror + pyval"
  have "apply_rule r values d' = (if ?g then assign (rule_target r) ?x d' else (Normal, d'))"
    if a: "\<forall>k \<in> insert (rule_target r) (rule_using r). d' k = d k" for d'
  proof -
    from a Charging have v: "d' ATTR_CURRENT = d ATTR_CURRENT"
      by simp_all
    from a Charging have c: "can_calc d' values ATTR_BATTERY_CHARGING {ATTR_CURRENT} = can_calc d values ATTR_BATTERY_CHARGING {ATTR_CURRENT}"
      by (intro can_calc_cong) auto
    show ?thesis
      using Charging by (simp add: calc_charging_eq c v)
  qed
  moreover have "?g \<longrightarrow> rule_target r \<in> values \<and> d (rule_target r) = None \<and> rule_using r \<subseteq> dom d"
    using Charging by (auto simp: can_calc_def)
  moreover have "\<forall>e. ?x = Inl e \<longrightarrow> e = OverflowError \<or> e = ValueError"
    by simp
  ultimately show ?thesis by blast
next
  case Runtime
  let ?g = "can_calc d values ATTR_RUNTIME {ATTR_CURRENT, ATTR_CYCLE_CHRG} \<and> py_lt (the (d ATTR_CURRENT)) (PyInt 0)"
  let ?x = "if py_lt (the (d ATTR_CURRENT)) (PyInt 0) then bind_err (py_truediv (the (d ATTR_CYCLE_CHRG)) (py_abs (the (d ATTR_CURRENT)))) (\<lambda>q. bind_err (py_mul q HRS_TO_SECS) py_int) else Inr (PyInt 0)"
  have "apply_rule r values d' = (if ?g then assign (rule_target r) ?x d' else (Normal, d'))"
    if a: "\<forall>k \<in> insert (rule_target r) (rule_using r). d' k = d k" for d'
  proof -
    from a Runtime have v: "d' ATTR_CURRENT = d ATTR_CURRENT" "d' ATTR_CYCLE_CHRG = d ATTR_CYCLE_CHRG"
      by simp_all
    from a Runtime have c: "can_calc d' values ATTR_RUNTIME {ATTR_CURRENT, ATTR_CYCLE_CHRG} = can_calc d values ATTR_RUNTIME {ATTR_CURRENT, ATTR_CYCLE_CHRG}"
      by (intro can_calc_cong) auto
    show ?thesis
      using Runtime by (simp add: calc_runtime_eq c v)
  qed
  moreover have "?g \<longrightarrow> rule_target r \<in> values \<and> d (rule_target r) = None \<and> rule_using r \<subseteq> dom d"
    using Runtime by (auto simp: can_calc_def)
  moreover have "\<forall>e. ?x = Inl e \<longrightarrow> e = OverflowError \<or> e = ValueError"
    by (auto dest: runtime_expr_error split: if_splits)
  ultimately show ?thesis by blast
qed

subsection \<open>One rule\<close>

lemma apply_rule_frame:
  "k \<noteq> rule_target r \<Longrightarrow> snd (apply_rule r values d) k = d k"
proof -
  assume k: "k \<noteq> rule_target r"
  from apply_rule_form [of r d "values"] obtain g x where
    "apply_rule r values d = (if g then assign (rule_target r) x d else (Normal, d))"
    by blast
  with k show ?thesis by (cases x) (simp_all add: assign_def)
qed

lemma apply_rule_skip:
  "d (rule_target r) \<noteq> None \<or> rule_target r \<notin> values \<or> \<not> rule_using r \<subseteq> dom d
     \<Longrightarrow> apply_rule r values d = (Normal, d)"
proof -
  assume a: "d (rule_target r) \<noteq> None \<or> rule_target r \<notin> values \<or> \<not> rule_using r \<subseteq> dom d"
  from apply_rule_form [of r d "values"] obtain g x where
    f: "apply_rule r values d = (if g then assign (rule_target r) x d else (Normal, d))"
    and g: "g \<longrightarrow> rule_target r \<in> values \<and> d (rule_target r) = None \<and> rule_using r \<subseteq> dom d"
    by blast
  from a g have "\<not> g" by auto
  with f show ?thesis by simp
qed

lemma apply_rule_raised:
  assumes "apply_rule r values d = (Raised e, d')"
  shows "d' = d \<and> (e = OverflowError \<or> e = ValueError)"
proof -
  from apply_rule_form [of r d "values"] obtain g x where
    f: "apply_rule r values d = (if g then assign (rule_target r) x d else (Normal, d))"
    and x: "\<forall>e. x = Inl e \<longrightarrow> e = OverflowError \<or> e = ValueError"
    by blast
  from assms f x show ?thesis
    by (cases x) (auto simp: assign_def split: if_splits)
qed

lemma apply_rule_new:
  assumes "snd (apply_rule r values d) k \<noteq> d k"
  shows "k = rule_target r \<and> k \<in> values \<and> d k = None"
proof -
  from assms apply_rule_frame have k: "k = rule_target r" by blast
  with assms apply_rule_skip [of d r "values"] show ?thesis by force
qed

lemma apply_rule_keeps:
  "d k = Some v \<Longrightarrow> snd (apply_rule r values d) k = Some v"
  using apply_rule_new [of r "values" d k] by force

lemma apply_rule_local:
  assumes "\<forall>k \<in> insert (rule_target r) (rule_using r). d' k = d k"
  shows "fst (apply_rule r values d') = fst (apply_rule r values d)"
    and "snd (apply_rule r values d') (rule_target r) = snd (apply_rule r values d) (rule_target r)"
proof -
  from apply_rule_form [of r d "values"] obtain g x where
    f: "\<forall>d'. (\<forall>k \<in> insert (rule_target r) (rule_using r). d' k = d k)
          \<longrightarrow> apply_rule r values d' = (if g then assign (rule_target r) x d' else (Normal, d'))"
    by blast
  from f assms have a: "apply_rule r values d' = (if g then assign (rule_target r) x d' else (Normal, d'))"
    by blast
  from f have b: "apply_rule r values d = (if g then assign (rule_target r) x d else (Normal, d))"
    by blast
  from assms have t: "d' (rule_target r) = d (rule_target r)" by simp
  show "fst (apply_rule r values d') = fst (apply_rule r values d)"
    unfolding a b by (cases x) (simp_all add: assign_def)
  show "snd (apply_rule r values d') (rule_target r) = snd (apply_rule r values d) (rule_target r)"
    unfolding a b using t by (cases x) (simp_all add: assign_def)
qed

lemma apply_rule_noop_local:
  assumes "\<forall>k \<in> insert (rule_target r) (rule_using r). d' k = d k"
    and "apply_rule r values d = (Normal, d)"
  shows "apply_rule r values d' = (Normal, d')"
proof -
  have o: "fst (apply_rule r values d') = Normal"
    using apply_rule_local(1) [OF assms(1), of "values"] assms(2) by simp
  have "snd (apply_rule r values d') k = d' k" for k
  proof (cases "k = rule_target r")
    case True
    then show ?thesis
      using apply_rule_local(2) [OF assms(1), of "values"] assms by simp
  next
    case False
    then show ?thesis by (rule apply_rule_frame)
  qed
  then have "snd (apply_rule r values d') = d'" by (rule ext)
  with o show ?thesis by (simp add: prod_eq_iff)
qed

lemma apply_rule_settled:
  assumes "apply_rule r values d = (Normal, d1)"
  shows "apply_rule r values d1 = (Normal, d1)"
proof (cases "d1 (rule_target r) = None")
  case True
  have "d1 k = d k" for k
  proof (cases "k = rule_target r")
    case t: True
    show ?thesis
    proof (rule ccontr)
      assume "d1 k \<noteq> d k"
      with assms have "snd (apply_rule r values d) k \<noteq> d k" by simp
      then have "d k = None" by (rule apply_rule_new [THEN conjunct2, THEN conjunct2])
      with True t \<open>d1 k \<noteq> d k\<close> show False by simp
    qed
  next
    case False
    then show ?thesis using apply_rule_frame [of k r "values" d] assms by simp
  qed
  then have "d1 = d" by (rule ext)
  with assms show ?thesis by simp
next
  case False
  then show ?thesis by (intro apply_rule_skip) simp
qed

lemma rule_target_inj: "rule_target r = rule_target r' \<Longrightarrow> r = r'"
  by (cases r; cases r') simp_all

lemma rule_reads_other:
  "r \<noteq> r' \<Longrightarrow> rule_target r \<notin> insert (rule_target r') (rule_using r')"
  by (cases r; cases r') simp_all

lemma apply_rule_agree_other:
  "r \<noteq> r' \<Longrightarrow> \<forall>k \<in> insert (rule_target r') (rule_using r'). snd (apply_rule r values d) k = d k"
  using rule_reads_other [of r r'] by (auto intro: apply_rule_frame)

subsection \<open>A sequence of rules\<close>

lemma run_rules_Cons:
  "run_rules (r # rs) values d =
     (case apply_rule r values d of
        (Normal, d1) \<Rightarrow> run_rules rs values d1
      | (Raised e, d1) \<Rightarrow> (Raised e, d1))"
  by (simp add: then_stmt_def)

declare run_rules.simps(2) [simp del]

lemma run_rules_Normal:
  "apply_rule r values d = (Normal, d1) \<Longrightarrow> run_rules (r # rs) values d = run_rules rs values d1"
  by (simp add: run_rules_Cons)

lemma run_rules_Raised:
  "apply_rule r values d = (Raised e, d1) \<Longrightarrow> run_rules (r # rs) values d = (Raised e, d)"
  using apply_rule_raised [of r "values" d e d1] by (simp add: run_rules_Cons)

lemma outcome_cases:
  obtains d1 where "apply_rule r values d = (Normal, d1)"
  | e where "apply_rule r values d = (Raised e, d)" "e = OverflowError \<or> e = ValueError"
proof (cases "apply_rule r values d")
  case (Pair o1 d1)
  show ?thesis
  proof (cases o1)
    case Normal
    with Pair that(1) show ?thesis by simp
  next
    case (Raised e)
    with Pair apply_rule_raised [of r "values" d e d1] that(2) show ?thesis by simp
  qed
qed

lemma run_rules_keeps:
  "d k = Some v \<Longrightarrow> snd (run_rules rs values d) k = Some v"
proof (induction rs arbitrary: d)
  case Nil
  then show ?case by simp
next
  case (Cons r rs)
  show ?case
  proof (cases rule: outcome_cases [of r "values" d])
    case (1 d1)
    with Cons.prems apply_rule_keeps [of d k v r "values"] have "d1 k = Some v" by simp
    then have "snd (run_rules rs values d1) k = Some v" by (rule Cons.IH)
    with 1 show ?thesis by (simp add: run_rules_Normal)
  next
    case (2 e)
    with Cons.prems show ?thesis by (simp add: run_rules_Raised)
  qed
qed

lemma run_rules_new:
  "snd (run_rules rs values d) k \<noteq> d k
     \<Longrightarrow> k \<in> rule_target ` set rs \<and> k \<in> values \<and> d k = None"
proof (induction rs arbitrary: d)
  case Nil
  then show ?case by simp
next
  case (Cons r rs)
  show ?case
  proof (cases rule: outcome_cases [of r "values" d])
    case (1 d1)
    with Cons.prems have n: "snd (run_rules rs values d1) k \<noteq> d k"
      by (simp add: run_rules_Normal)
    show ?thesis
    proof (cases "d1 k = d k")
      case True
      with n Cons.IH [of d1] show ?thesis by simp
    next
      case False
      with 1 have "snd (apply_rule r values d) k \<noteq> d k" by simp
      then show ?thesis using apply_rule_new by fastforce
    qed
  next
    case (2 e)
    with Cons.prems show ?thesis by (simp add: run_rules_Raised)
  qed
qed

lemma run_rules_frame:
  "k \<notin> rule_target ` set rs \<Longrightarrow> snd (run_rules rs values d) k = d k"
  using run_rules_new by blast

lemma run_rules_error:
  "fst (run_rules rs values d) = Raised e \<Longrightarrow> e = OverflowError \<or> e = ValueError"
proof (induction rs arbitrary: d)
  case Nil
  then show ?case by simp
next
  case (Cons r rs)
  show ?case
  proof (cases rule: outcome_cases [of r "values" d])
    case (1 d1)
    with Cons.prems Cons.IH [of d1] show ?thesis by (simp add: run_rules_Normal)
  next
    case (2 e')
    with Cons.prems show ?thesis by (simp add: run_rules_Raised)
  qed
qed

lemma run_rules_agree:
  assumes "r \<notin> set rs"
  shows "\<forall>k \<in> insert (rule_target r) (rule_using r). snd (run_rules rs values d) k = d k"
proof
  fix k assume k: "k \<in> insert (rule_target r) (rule_using r)"
  have "k \<notin> rule_target ` set rs"
  proof
    assume "k \<in> rule_target ` set rs"
    then obtain r' where r': "r' \<in> set rs" "k = rule_target r'" by blast
    with assms have "r' \<noteq> r" by blast
    then have "rule_target r' \<notin> insert (rule_target r) (rule_using r)"
      by (rule rule_reads_other)
    with k r' show False by simp
  qed
  then show "snd (run_rules rs values d) k = d k" by (rule run_rules_frame)
qed

lemma run_rules_idem:
  "distinct rs \<Longrightarrow> run_rules rs values (snd (run_rules rs values d)) = run_rules rs values d"
proof (induction rs arbitrary: d)
  case Nil
  show ?case by simp
next
  case (Cons r rs)
  then have nr: "r \<notin> set rs" and dr: "distinct rs" by simp_all
  show ?case
  proof (cases rule: outcome_cases [of r "values" d])
    case (1 d1)
    let ?d2 = "snd (run_rules rs values d1)"
    have s: "apply_rule r values d1 = (Normal, d1)"
      using 1 by (rule apply_rule_settled)
    have "apply_rule r values ?d2 = (Normal, ?d2)"
      using run_rules_agree [OF nr] s by (rule apply_rule_noop_local)
    then have "run_rules (r # rs) values ?d2 = run_rules rs values ?d2"
      by (rule run_rules_Normal)
    also have "\<dots> = run_rules rs values d1" using dr by (rule Cons.IH)
    finally show ?thesis using 1 by (simp add: run_rules_Normal)
  next
    case (2 e)
    then show ?thesis by (simp add: run_rules_Raised)
  qed
qed

lemma run_rules_all_normal:
  "distinct rs \<Longrightarrow> fst (run_rules rs values d) = Normal \<Longrightarrow> r \<in> set rs
     \<Longrightarrow> fst (apply_rule r values d) = Normal"
proof (induction rs arbitrary: d)
  case Nil
  then show ?case by simp
next
  case (Cons x xs)
  show ?case
  proof (cases rule: outcome_cases [of x "values" d])
    case (1 d1)
    show ?thesis
    proof (cases "r = x")
      case True
      with 1 show ?thesis by simp
    next
      case False
      with Cons.prems have "r \<in> set xs" "distinct xs" by simp_all
      moreover from Cons.prems 1 have "fst (run_rules xs values d1) = Normal"
        by (simp add: run_rules_Normal)
      ultimately have n: "fst (apply_rule r values d1) = Normal"
        using Cons.IH by blast
      from False have "x \<noteq> r" by simp
      then have "\<forall>k \<in> insert (rule_target r) (rule_using r). snd (apply_rule x values d) k = d k"
        by (rule apply_rule_agree_other)
      with 1 have "\<forall>k \<in> insert (rule_target r) (rule_using r). d1 k = d k" by simp
      then have "fst (apply_rule r values d1) = fst (apply_rule r values d)"
        by (rule apply_rule_local(1))
      with n show ?thesis by simp
    qed
  next
    case (2 e)
    with Cons.prems show ?thesis by (simp add: run_rules_Raised)
  qed
qed

subsection \<open>Integers too large for a double\<close>

lemma bitlen_upper: "n < 2 ^ nat (bitlen n)"
proof (induction n rule: bitlen.induct)
  case (1 n)
  show ?case
  proof (cases "n = 0")
    case True
    then show ?thesis by simp
  next
    case False
    with "1.IH" have ih: "n div 2 < 2 ^ nat (bitlen (n div 2))" by simp
    have b: "bitlen n = 1 + bitlen (n div 2)"
      using False by (subst bitlen.simps) simp
    have "nat (bitlen n) = Suc (nat (bitlen (n div 2)))"
      using b bitlen_nonneg [of "n div 2"] by simp
    then have "(2::nat) ^ nat (bitlen n) = 2 * 2 ^ nat (bitlen (n div 2))" by simp
    moreover have "n < 2 * (n div 2 + 1)" by simp
    moreover have "2 * (n div 2 + 1) \<le> 2 * 2 ^ nat (bitlen (n div 2))"
      using ih by simp
    ultimately show ?thesis by simp
  qed
qed

lemma bitlen_ge: "2 ^ k \<le> n \<Longrightarrow> int k + 1 \<le> bitlen n"
proof -
  assume "2 ^ k \<le> n"
  then have "(2::nat) ^ k < 2 ^ nat (bitlen n)"
    using bitlen_upper [of n] by (rule le_less_trans)
  then have "k < nat (bitlen n)" by simp
  then show ?thesis by simp
qed

lemma round_ratio_overflow:
  assumes "2 ^ 1024 \<le> p"
  shows "round_ratio s p 1 = Infinity s"
proof -
  from assms have p: "0 < p" by (simp add: order.strict_trans2 [of 0 "2 ^ 1024"])
  have b1: "bitlen (Suc 0) = 1" by (simp add: bitlen.simps)
  let ?E = "bitlen p - 1"
  have bp: "1025 \<le> bitlen p" using bitlen_ge [OF assms] by simp
  have lo: "2 ^ nat ?E \<le> p" using p by (rule bitlen_lower)
  have E: "floor_log2 p 1 = ?E"
    using lo bp by (simp add: floor_log2_def pick_exponent_def b1 scaled_num_def scaled_den_def)
  let ?u = "?E - 52"
  have u: "ulp_exponent ?E = ?u" using bp by (simp add: ulp_exponent_def)
  have u0: "0 \<le> ?u" using bp by simp
  let ?n = "round_half_even p (2 ^ nat ?u)"
  have "nat ?E = nat ?u + 52" using bp by simp
  then have "(2::nat) ^ nat ?E = 2 ^ 52 * 2 ^ nat ?u" by (simp add: power_add)
  with lo have "2 ^ 52 * 2 ^ nat ?u \<le> p" by simp
  then have "2 ^ 52 \<le> p div 2 ^ nat ?u"
    by (simp add: less_eq_div_iff_mult_less_eq)
  also have "\<dots> \<le> ?n" by (simp add: round_half_even_def nearest_even_def)
  finally have "int 52 + 1 \<le> bitlen ?n" by (rule bitlen_ge)
  with bp have big: "1024 < bitlen ?n + ?u" by simp
  have "round_with_ulp s p 1 ?u = Infinity s"
    using big u0 by (simp add: round_with_ulp_def pack_float_def scaled_num_def scaled_den_def)
  with p E u show ?thesis by (simp add: round_ratio_def)
qed

lemma int_to_float_overflow: "2 ^ 1024 \<le> \<bar>i\<bar> \<Longrightarrow> int_to_float i = Inl OverflowError"
proof -
  assume "2 ^ 1024 \<le> \<bar>i\<bar>"
  then have "2 ^ 1024 \<le> nat \<bar>i\<bar>" by (simp add: le_nat_iff)
  then have "round_ratio (i < 0) (nat \<bar>i\<bar>) 1 = Infinity (i < 0)"
    by (rule round_ratio_overflow)
  then show ?thesis by (simp add: int_to_float_def)
qed

lemma py_mul_overflow:
  "2 ^ 1024 \<le> \<bar>i\<bar> \<Longrightarrow> py_mul (PyInt i) (PyFloat x) = Inl OverflowError"
  "2 ^ 1024 \<le> \<bar>i\<bar> \<Longrightarrow> py_mul (PyFloat x) (PyInt i) = Inl OverflowError"
  by (simp_all add: py_mul_def bind_err_def int_to_float_overflow)

lemma py_truediv_overflow:
  "2 ^ 1024 \<le> \<bar>i\<bar> \<Longrightarrow> py_truediv (PyInt i) (PyInt 1) = Inl OverflowError"
proof -
  assume "2 ^ 1024 \<le> \<bar>i\<bar>"
  then have "2 ^ 1024 \<le> nat \<bar>i\<bar>" by (simp add: le_nat_iff)
  then have "round_ratio (i < 0) (nat \<bar>i\<bar>) 1 = Infinity (i < 0)"
    by (rule round_ratio_overflow)
  then show ?thesis by (simp add: py_truediv_def)
qed

subsection \<open>calc_values as a sequence of rules\<close>

lemma then_stmt_skip: "then_stmt s (\<lambda>d. (Normal, d)) = s"
  by (auto simp: then_stmt_def fun_eq_iff split: prod.splits outcome.splits)

lemma calc_values_run:
  "calc_values data values = run_rules [CycleCap, Power, Charging, Runtime] values data"
  by (simp add: calc_values_def run_rules.simps(2) then_stmt_skip)

lemma rule_UNIV: "(UNIV :: rule set) = {CycleCap, Power, Charging, Runtime}"
  using rule.exhaust by auto

lemma run_rules_target:
  "distinct rs \<Longrightarrow> r \<in> set rs \<Longrightarrow>
     snd (run_rules rs values d) (rule_target r) = snd (apply_rule r values d) (rule_target r)
     \<or> snd (run_rules rs values d) (rule_target r) = d (rule_target r)"
proof (induction rs arbitrary: d)
  case Nil
  then show ?case by simp
next
  case (Cons x xs)
  show ?case
  proof (cases rule: outcome_cases [of x "values" d])
    case (1 d1)
    show ?thesis
    proof (cases "r = x")
      case True
      with Cons.prems have "r \<notin> set xs" by simp
      then have "snd (run_rules xs values d1) (rule_target r) = d1 (rule_target r)"
        using run_rules_agree [of r xs "values" d1] by simp
      with 1 True show ?thesis by (simp add: run_rules_Normal)
    next
      case False
      with Cons.prems have "r \<in> set xs" "distinct xs" by simp_all
      then have ih: "snd (run_rules xs values d1) (rule_target r) = snd (apply_rule r values d1) (rule_target r)
          \<or> snd (run_rules xs values d1) (rule_target r) = d1 (rule_target r)"
        using Cons.IH by blast
      from False have "x \<noteq> r" by simp
      then have "\<forall>k \<in> insert (rule_target r) (rule_using r). snd (apply_rule x values d) k = d k"
        by (rule apply_rule_agree_other)
      with 1 have a: "\<forall>k \<in> insert (rule_target r) (rule_using r). d1 k = d k" by simp
      then have "snd (apply_rule r values d1) (rule_target r) = snd (apply_rule r values d) (rule_target r)"
        by (rule apply_rule_local(2))
      moreover from a have "d1 (rule_target r) = d (rule_target r)" by simp
      ultimately show ?thesis using ih 1 by (simp add: run_rules_Normal)
    qed
  next
    case (2 e)
    then show ?thesis by (simp add: run_rules_Raised)
  qed
qed

lemma run_rules_target_normal:
  "distinct rs \<Longrightarrow> r \<in> set rs \<Longrightarrow> fst (run_rules rs values d) = Normal \<Longrightarrow>
     snd (run_rules rs values d) (rule_target r) = snd (apply_rule r values d) (rule_target r)"
proof (induction rs arbitrary: d)
  case Nil
  then show ?case by simp
next
  case (Cons x xs)
  show ?case
  proof (cases rule: outcome_cases [of x "values" d])
    case (1 d1)
    with Cons.prems have n: "fst (run_rules xs values d1) = Normal"
      by (simp add: run_rules_Normal)
    show ?thesis
    proof (cases "r = x")
      case True
      with Cons.prems have "r \<notin> set xs" by simp
      then have "snd (run_rules xs values d1) (rule_target r) = d1 (rule_target r)"
        using run_rules_agree [of r xs "values" d1] by simp
      with 1 True show ?thesis by (simp add: run_rules_Normal)
    next
      case False
      with Cons.prems have "r \<in> set xs" "distinct xs" by simp_all
      with n have ih: "snd (run_rules xs values d1) (rule_target r) = snd (apply_rule r values d1) (rule_target r)"
        using Cons.IH by blast
      from False have "x \<noteq> r" by simp
      then have "\<forall>k \<in> insert (rule_target r) (rule_using r). snd (apply_rule x values d) k = d k"
        by (rule apply_rule_agree_other)
      with 1 have a: "\<forall>k \<in> insert (rule_target r) (rule_using r). d1 k = d k" by simp
      then have "snd (apply_rule r values d1) (rule_target r) = snd (apply_rule r values d) (rule_target r)"
        by (rule apply_rule_local(2))
      with ih 1 show ?thesis by (simp add: run_rules_Normal)
    qed
  next
    case (2 e)
    with Cons.prems show ?thesis by (simp add: run_rules_Raised)
  qed
qed

subsection \<open>Reordering rules that do not raise\<close>

lemma all_normal_step:
  assumes "\<forall>r. fst (apply_rule r values d) = Normal" "apply_rule x values d = (Normal, d1)"
  shows "\<forall>r. fst (apply_rule r values d1) = Normal"
proof
  fix r
  show "fst (apply_rule r values d1) = Normal"
  proof (cases "r = x")
    case True
    with assms(2) apply_rule_settled [of x "values" d d1] show ?thesis by simp
  next
    case False
    then have "x \<noteq> r" by simp
    then have "\<forall>k \<in> insert (rule_target r) (rule_using r). snd (apply_rule x values d) k = d k"
      by (rule apply_rule_agree_other)
    with assms(2) have "\<forall>k \<in> insert (rule_target r) (rule_using r). d1 k = d k" by simp
    then have "fst (apply_rule r values d1) = fst (apply_rule r values d)"
      by (rule apply_rule_local(1))
    with assms(1) show ?thesis by simp
  qed
qed

lemma apply_rule_commute:
  assumes "x \<noteq> y"
  shows "snd (apply_rule x values (snd (apply_rule y values d)))
       = snd (apply_rule y values (snd (apply_rule x values d)))"
proof
  fix k
  let ?dy = "snd (apply_rule y values d)" and ?dx = "snd (apply_rule x values d)"
  have ay: "\<forall>k \<in> insert (rule_target x) (rule_using x). ?dy k = d k"
    using assms by (intro apply_rule_agree_other) simp
  have ax: "\<forall>k \<in> insert (rule_target y) (rule_using y). ?dx k = d k"
    using assms by (intro apply_rule_agree_other)
  have txy: "rule_target x \<noteq> rule_target y"
    using assms rule_target_inj by blast
  show "snd (apply_rule x values ?dy) k = snd (apply_rule y values ?dx) k"
  proof (cases "k = rule_target x")
    case True
    have "snd (apply_rule x values ?dy) k = ?dx k"
      using apply_rule_local(2) [OF ay, of "values"] True by simp
    moreover have "snd (apply_rule y values ?dx) k = ?dx k"
      using True txy by (intro apply_rule_frame) simp
    ultimately show ?thesis by simp
  next
    case False
    then have l: "snd (apply_rule x values ?dy) k = ?dy k" by (rule apply_rule_frame)
    show ?thesis
    proof (cases "k = rule_target y")
      case True
      then show ?thesis
        using apply_rule_local(2) [OF ax, of "values"] l by simp
    next
      case f: False
      then have "snd (apply_rule y values ?dx) k = ?dx k" by (rule apply_rule_frame)
      moreover have "?dx k = d k" using False by (rule apply_rule_frame)
      moreover have "?dy k = d k" using f by (rule apply_rule_frame)
      ultimately show ?thesis using l by simp
    qed
  qed
qed

lemma run_rules_permute:
  assumes "mset rs' = mset rs" "\<forall>r. fst (apply_rule r values d) = Normal"
  shows "run_rules rs' values d = run_rules rs values d"
proof -
  define step where "step = (\<lambda>r (st :: outcome \<times> bmsdata).
    case st of (Normal, d) \<Rightarrow> apply_rule r values d | (Raised e, d) \<Rightarrow> (Raised e, d))"
  define P where "P = (\<lambda>st :: outcome \<times> bmsdata.
    \<exists>d. st = (Normal, d) \<and> (\<forall>r. fst (apply_rule r values d) = Normal))"
  have raised: "fold step xs (Raised e, d) = (Raised e, d)" for xs e d
    by (induction xs) (simp_all add: step_def)
  have run: "run_rules xs values d = fold step xs (Normal, d)" for xs d
  proof (induction xs arbitrary: d)
    case Nil
    show ?case by simp
  next
    case (Cons x xs)
    show ?case
    proof (cases rule: outcome_cases [of x "values" d])
      case (1 d1)
      then have "step x (Normal, d) = (Normal, d1)" by (simp add: step_def)
      with 1 Cons.IH [of d1] show ?thesis by (simp add: run_rules_Normal)
    next
      case (2 e)
      then have "step x (Normal, d) = (Raised e, d)" by (simp add: step_def)
      with 2 show ?thesis by (simp add: run_rules_Raised raised)
    qed
  qed
  have keep: "P (step x z)" if "P z" for x z
  proof -
    from that obtain d where z: "z = (Normal, d)" and n: "\<forall>r. fst (apply_rule r values d) = Normal"
      unfolding P_def by blast
    from n obtain d1 where a: "apply_rule x values d = (Normal, d1)"
      by (metis prod.collapse)
    with n have "\<forall>r. fst (apply_rule r values d1) = Normal" by (rule all_normal_step)
    with z a show ?thesis unfolding P_def step_def by simp
  qed
  have comm: "step x (step y z) = step y (step x z)" if "P z" for x y z
  proof (cases "x = y")
    case True
    then show ?thesis by simp
  next
    case False
    from that obtain d where z: "z = (Normal, d)" and n: "\<forall>r. fst (apply_rule r values d) = Normal"
      unfolding P_def by blast
    from n obtain dx where ax: "apply_rule x values d = (Normal, dx)" by (metis prod.collapse)
    from n obtain dy where ay: "apply_rule y values d = (Normal, dy)" by (metis prod.collapse)
    from n ax have nx: "\<forall>r. fst (apply_rule r values dx) = Normal" by (rule all_normal_step)
    from n ay have ny: "\<forall>r. fst (apply_rule r values dy) = Normal" by (rule all_normal_step)
    have "snd (apply_rule x values dy) = snd (apply_rule y values dx)"
      using apply_rule_commute [OF False, of "values" d] ax ay by simp
    moreover have "fst (apply_rule x values dy) = fst (apply_rule y values dx)"
      using nx ny by simp
    ultimately have "apply_rule x values dy = apply_rule y values dx"
      by (simp add: prod_eq_iff)
    with z ax ay show ?thesis by (simp add: step_def)
  qed
  have "P (Normal, d)" using assms(2) unfolding P_def by simp
  with assms(1) have "fold step rs' (Normal, d) = fold step rs (Normal, d)"
    by (rule fold_permuted_eq) (auto intro: keep comm)
  then show ?thesis by (simp add: run)
qed

subsection \<open>Evaluation on literals\<close>

lemmas float_eval = round_ratio_def round_with_ulp_def pack_float_def round_half_even_def
  nearest_even_def ulp_exponent_def floor_log2_def pick_exponent_def
  bitlen.simps normalize_float.simps scaled_num_def scaled_den_def

lemmas op_eval = py_mul_def py_truediv_def int_to_float_def py_lt_def py_gt_def HRS_TO_SECS_def

lemmas calc_unfold = calc_values_def then_stmt_def calc_cycle_cap_def calc_power_def
  calc_charging_def calc_runtime_def can_calc_def assign_def bind_err_def getitem_def

lemma py_mul_int: "py_mul (PyInt i) (PyInt j) = Inr (PyInt (i * j))"
  by (simp add: py_mul_def)

lemma source_order_distinct: "distinct [CycleCap, Power, Charging, Runtime]"
  by simp

lemma source_order_set: "r \<in> set [CycleCap, Power, Charging, Runtime]"
  by (cases r) simp_all

lemma calc_values_first:
  "calc_values data values =
     (case calc_cycle_cap values data of
        (Normal, d1) \<Rightarrow> run_rules [Power, Charging, Runtime] values d1
      | (Raised e, d1) \<Rightarrow> (Raised e, d1))"
  unfolding calc_values_run by (simp add: run_rules_Cons)

lemma calc_values_all_normal:
  "fst (calc_values data values) = Normal \<Longrightarrow> fst (apply_rule r values data) = Normal"
  unfolding calc_values_run
  by (rule run_rules_all_normal [OF source_order_distinct _ source_order_set])

lemma calc_values_target_normal:
  "fst (calc_values data values) = Normal \<Longrightarrow>
     snd (calc_values data values) (rule_target r) = snd (apply_rule r values data) (rule_target r)"
  unfolding calc_values_run
  using source_order_distinct source_order_set by (rule run_rules_target_normal)

lemma calc_values_target:
  "snd (calc_values data values) (rule_target r) = snd (apply_rule r values data) (rule_target r)
   \<or> snd (calc_values data values) (rule_target r) = data (rule_target r)"
  unfolding calc_values_run
  using source_order_distinct source_order_set by (rule run_rules_target)

lemma py_truediv_zero_int: "py_truediv c (py_abs (PyInt 0)) = Inl ZeroDivisionError"
  by (cases c) (simp_all add: py_truediv_def int_to_float_def round_ratio_def bind_err_def)

subsection \<open>The operators on literals\<close>

text \<open>
  Results of CPython on literals, reproduced by the definitions above: rounding of a
  product (\<open>0.1 * 3\<close> is 0.30000000000000004, \<open>13.1 * 2.3\<close> is 30.129999999999995),
  overflow of a float product to infinity (\<open>1e308 * 10.0\<close> is \<open>inf\<close>), the largest
  \<open>int\<close> that converts and the smallest that does not, a subnormal quotient, the sign of
  a zero quotient, and \<open>int()\<close>.
\<close>

lemma float_literal_examples:
  "float_literal 12 1 = Finite False 3 2" "float_literal 10 1 = Finite False 5 1"
  "float_literal 120 1 = Finite False 15 3" "float_literal 2 1 = Finite False 1 1"
  "float_literal 24 1 = Finite False 3 3" "float_literal (- 5) 1 = Finite True 5 0"
  "float_literal 15 10 = Finite False 3 (- 1)" "float_literal 25 10 = Finite False 5 (- 1)"
  "float_literal 1 10 = Finite False 3602879701896397 (- 55)"
  "float_literal 131 10 = Finite False 7374644389819187 (- 49)"
  "float_literal 23 10 = Finite False 2589569785738035 (- 50)"
  "float_literal 30129999999999995 1000000000000000 = Finite False 265026282759127 (- 43)"
  "float_literal 30000000000000004 100000000000000000 = Finite False 1351079888211149 (- 52)"
  by (simp_all add: float_literal_def float_eval)

lemma float_literal_1e308:
  "float_literal (10 ^ 308) 1 = Finite False 156575653125701 976"
  by (simp add: float_literal_def float_eval)

lemma py_mul_rounds:
  "py_mul (PyFloat (Finite False 3602879701896397 (- 55))) (PyInt 3)
     = Inr (PyFloat (Finite False 1351079888211149 (- 52)))"
  "py_mul (PyFloat (Finite False 7374644389819187 (- 49)))
          (PyFloat (Finite False 2589569785738035 (- 50)))
     = Inr (PyFloat (Finite False 265026282759127 (- 43)))"
  by (simp_all add: op_eval float_eval bind_err_def)

lemma py_mul_to_infinity:
  "py_mul (PyFloat (Finite False 156575653125701 976)) (PyFloat (Finite False 5 1))
     = Inr (PyFloat (Infinity False))"
  by (simp add: py_mul_def bind_err_def scaled_num_def scaled_den_def
      round_ratio_overflow [unfolded One_nat_def])

lemma py_mul_non_finite:
  "py_mul (PyFloat (Infinity False)) (PyInt 0) = Inr (PyFloat NaN)"
  "py_mul (PyFloat (Infinity True)) (PyInt (- 2)) = Inr (PyFloat (Infinity False))"
  "py_mul (PyFloat NaN) (PyInt 3600) = Inr (PyFloat NaN)"
  "py_mul (PyBool True) (PyFloat (Finite False 5 (- 1))) = Inr (PyFloat (Finite False 5 (- 1)))"
  "py_mul (PyBool True) (PyBool True) = Inr (PyInt 1)"
  by (simp_all add: op_eval float_eval bind_err_def)

lemma int_to_float_largest:
  "int_to_float (2 ^ 1024 - 2 ^ 970 - 1) = Inr (Finite False 9007199254740991 971)"
  by (simp add: int_to_float_def float_eval)

lemma py_truediv_literals:
  "py_truediv (PyInt 13) (PyInt 3) = Inr (PyFloat (Finite False 4878899596318037 (- 50)))"
  "py_truediv (PyInt 0) (PyInt (- 5)) = Inr (PyFloat (Finite True 0 0))"
  "py_truediv (PyFloat (Finite False 5 1)) (PyFloat (Infinity False)) = Inr (PyFloat (Finite False 0 0))"
  "py_truediv (PyFloat (Infinity False)) (PyFloat (Infinity False)) = Inr (PyFloat NaN)"
  "py_truediv (PyFloat (Finite False 5 1)) (PyBool False) = Inl ZeroDivisionError"
  by (simp_all add: op_eval float_eval bind_err_def)

lemma py_int_literals:
  "py_int (PyFloat (Finite True 7 (- 1))) = Inr (PyInt (- 3))"
  "py_int (PyFloat (Finite False 7 (- 1))) = Inr (PyInt 3)"
  "py_int (PyFloat NaN) = Inl ValueError"
  "py_int (PyFloat (Infinity False)) = Inl OverflowError"
  by (simp_all add: bind_err_def)

lemma py_compare_literals:
  "py_lt (PyFloat (Finite True 5 0)) (PyInt 0)" "\<not> py_lt (PyFloat (Finite True 0 0)) (PyInt 0)"
  "\<not> py_lt (PyFloat NaN) (PyInt 0)" "\<not> py_gt (PyFloat NaN) (PyInt 0)"
  "py_lt (PyFloat (Infinity True)) (PyInt 0)" "py_gt (PyFloat (Finite False 1 (- 1074))) (PyInt 0)"
  "py_gt (PyBool True) (PyInt 0)" "\<not> py_gt (PyBool False) (PyInt 0)"
  by (simp_all add: py_lt_def py_gt_def)

lemma calc_runtime_nan:
  "calc_values [ATTR_CURRENT \<mapsto> PyInt (- 1), ATTR_CYCLE_CHRG \<mapsto> PyFloat NaN] {ATTR_RUNTIME}
     = (Raised ValueError, [ATTR_CURRENT \<mapsto> PyInt (- 1), ATTR_CYCLE_CHRG \<mapsto> PyFloat NaN])"
  by (simp add: calc_unfold op_eval float_eval)

lemma int_to_float_smallest_overflow:
  "int_to_float (2 ^ 1024 - 2 ^ 970) = Inl OverflowError"
  by (simp add: int_to_float_def float_eval)
lemma py_truediv_subnormal:
  "py_truediv (PyInt 3) (PyInt (2 ^ 1075)) = Inr (PyFloat (Finite False 1 (- 1073)))"
  "py_truediv (PyInt 1) (PyInt (2 ^ 1075)) = Inr (PyFloat (Finite False 0 0))"
  by (simp_all add: op_eval float_eval)

section \<open>Properties of calc_values\<close>

text \<open>
  Claim C1. For every measurement mapping and every requested set, a key that is present
  before \<open>calc_values\<close> is bound to the same value in the mapping the call leaves,
  whether the call returns or raises.
\<close>

theorem calc_values_keeps_present:
  "data k = Some v \<Longrightarrow> snd (calc_values data values) k = Some v"
  unfolding calc_values_run by (rule run_rules_keeps)

theorem calc_values_keeps_present_witness:
  "snd (calc_values [ATTR_VOLTAGE \<mapsto> PyFloat (Finite False 3 2),
                     ATTR_CYCLE_CHRG \<mapsto> PyFloat (Finite False 5 1)]
         {ATTR_CYCLE_CAP}) ATTR_VOLTAGE = Some (PyFloat (Finite False 3 2))
   \<and> snd (calc_values [ATTR_VOLTAGE \<mapsto> PyFloat (Finite False 3 2),
                       ATTR_CYCLE_CHRG \<mapsto> PyFloat (Finite False 5 1)]
         {ATTR_CYCLE_CAP}) ATTR_CYCLE_CAP = Some (PyFloat (Finite False 15 3))"
proof -
  let ?d = "[ATTR_VOLTAGE \<mapsto> PyFloat (Finite False 3 2),
             ATTR_CYCLE_CHRG \<mapsto> PyFloat (Finite False 5 1)]"
  have "?d ATTR_VOLTAGE = Some (PyFloat (Finite False 3 2))" by simp
  then have a: "snd (calc_values ?d {ATTR_CYCLE_CAP}) ATTR_VOLTAGE = Some (PyFloat (Finite False 3 2))"
    by (rule calc_values_keeps_present)
  have b: "snd (calc_values ?d {ATTR_CYCLE_CAP}) ATTR_CYCLE_CAP = Some (PyFloat (Finite False 15 3))"
    by (simp add: calc_unfold op_eval float_eval)
  from a b show ?thesis by simp
qed

text \<open>
  Claim C2. Every key that is in the mapping after \<open>calc_values\<close> and was not in it before
  is a member of the requested set; it is moreover one of the four derived keys.
\<close>

theorem calc_values_adds_only_requested:
  "dom (snd (calc_values data values)) - dom data \<subseteq> values
   \<and> dom (snd (calc_values data values)) - dom data
       \<subseteq> {ATTR_CYCLE_CAP, ATTR_POWER, ATTR_BATTERY_CHARGING, ATTR_RUNTIME}"
proof -
  have "k \<in> values \<and> k \<in> {ATTR_CYCLE_CAP, ATTR_POWER, ATTR_BATTERY_CHARGING, ATTR_RUNTIME}"
    if "k \<in> dom (snd (calc_values data values)) - dom data" for k
  proof -
    from that have "snd (run_rules [CycleCap, Power, Charging, Runtime] values data) k \<noteq> data k"
      by (auto simp: calc_values_run)
    then have "k \<in> rule_target ` set [CycleCap, Power, Charging, Runtime] \<and> k \<in> values"
      using run_rules_new by blast
    then show ?thesis by auto
  qed
  then show ?thesis by blast
qed

theorem calc_values_adds_only_requested_witness:
  "dom (snd (calc_values [ATTR_VOLTAGE \<mapsto> PyFloat (Finite False 3 2),
                          ATTR_CURRENT \<mapsto> PyFloat (Finite False 1 1)] {ATTR_POWER}))
     - dom [ATTR_VOLTAGE \<mapsto> PyFloat (Finite False 3 2),
            ATTR_CURRENT \<mapsto> PyFloat (Finite False 1 1)] = {ATTR_POWER}"
proof -
  let ?d = "[ATTR_VOLTAGE \<mapsto> PyFloat (Finite False 3 2),
             ATTR_CURRENT \<mapsto> PyFloat (Finite False 1 1)]"
  have "dom (snd (calc_values ?d {ATTR_POWER})) - dom ?d \<subseteq> {ATTR_POWER}"
    using calc_values_adds_only_requested [of ?d "{ATTR_POWER}"] by blast
  moreover have "ATTR_POWER \<in> dom (snd (calc_values ?d {ATTR_POWER})) - dom ?d"
    by (simp add: calc_unfold op_eval float_eval)
  ultimately show ?thesis by blast
qed

text \<open>
  The claim C3 as the spec states it fails when the product cannot be computed: with the
  \<open>int\<close> voltage \<open>2 ^ 1024\<close> and the \<open>float\<close> cycle-charge 1.5 the multiplication raises
  \<open>OverflowError\<close> ("int too large to convert to float"), \<open>calc_values\<close> raises it and
  cycle-capacity stays absent.
\<close>

theorem calc_values_cycle_cap_counterexample:
  "ATTR_CYCLE_CAP \<in> {ATTR_CYCLE_CAP}
   \<and> [ATTR_VOLTAGE \<mapsto> PyInt (2 ^ 1024), ATTR_CYCLE_CHRG \<mapsto> PyFloat (Finite False 3 (- 1))]
        ATTR_CYCLE_CAP = None
   \<and> calc_values
        [ATTR_VOLTAGE \<mapsto> PyInt (2 ^ 1024), ATTR_CYCLE_CHRG \<mapsto> PyFloat (Finite False 3 (- 1))]
        {ATTR_CYCLE_CAP}
      = (Raised OverflowError,
         [ATTR_VOLTAGE \<mapsto> PyInt (2 ^ 1024), ATTR_CYCLE_CHRG \<mapsto> PyFloat (Finite False 3 (- 1))])
   \<and> snd (calc_values
        [ATTR_VOLTAGE \<mapsto> PyInt (2 ^ 1024), ATTR_CYCLE_CHRG \<mapsto> PyFloat (Finite False 3 (- 1))]
        {ATTR_CYCLE_CAP}) ATTR_CYCLE_CAP = None"
  by (simp add: calc_unfold py_mul_overflow)

text \<open>
  Claim C3, amended. When cycle-capacity is requested and absent and voltage and
  cycle-charge are present, \<open>calc_values\<close> evaluates Python's product
  \<open>voltage * cycle-charge\<close>. If the product has a value, the mapping the call leaves binds
  cycle-capacity to it. If the product raises, the error is \<open>OverflowError\<close>, the call
  raises it and the mapping is unchanged. From voltage 12.0 and cycle-charge 10.0 with
  cycle-capacity requested the call returns with cycle-capacity 120.0 added and nothing
  else; from the \<open>int\<close>s 48 and 10 it adds the \<open>int\<close> 480; from 0.1 and 3 it adds the
  rounded product 0.30000000000000004.
\<close>

theorem calc_values_cycle_cap:
  "(ATTR_CYCLE_CAP \<in> values \<and> data ATTR_CYCLE_CAP = None
      \<and> data ATTR_VOLTAGE = Some v \<and> data ATTR_CYCLE_CHRG = Some c
    \<longrightarrow> (\<forall>p. py_mul v c = Inr p
             \<longrightarrow> snd (calc_values data values) ATTR_CYCLE_CAP = Some p)
        \<and> (\<forall>e. py_mul v c = Inl e
             \<longrightarrow> e = OverflowError \<and> calc_values data values = (Raised e, data)))
   \<and> calc_values [ATTR_VOLTAGE \<mapsto> PyFloat (Finite False 3 2),
                   ATTR_CYCLE_CHRG \<mapsto> PyFloat (Finite False 5 1)] {ATTR_CYCLE_CAP}
       = (Normal, [ATTR_VOLTAGE \<mapsto> PyFloat (Finite False 3 2),
                   ATTR_CYCLE_CHRG \<mapsto> PyFloat (Finite False 5 1),
                   ATTR_CYCLE_CAP \<mapsto> PyFloat (Finite False 15 3)])
   \<and> calc_values [ATTR_VOLTAGE \<mapsto> PyInt 48, ATTR_CYCLE_CHRG \<mapsto> PyInt 10] {ATTR_CYCLE_CAP}
       = (Normal, [ATTR_VOLTAGE \<mapsto> PyInt 48, ATTR_CYCLE_CHRG \<mapsto> PyInt 10,
                   ATTR_CYCLE_CAP \<mapsto> PyInt 480])
   \<and> calc_values [ATTR_VOLTAGE \<mapsto> PyFloat (Finite False 3602879701896397 (- 55)),
                   ATTR_CYCLE_CHRG \<mapsto> PyInt 3] {ATTR_CYCLE_CAP}
       = (Normal, [ATTR_VOLTAGE \<mapsto> PyFloat (Finite False 3602879701896397 (- 55)),
                   ATTR_CYCLE_CHRG \<mapsto> PyInt 3,
                   ATTR_CYCLE_CAP \<mapsto> PyFloat (Finite False 1351079888211149 (- 52))])"
proof (intro conjI impI allI)
  fix p
  assume g: "ATTR_CYCLE_CAP \<in> values \<and> data ATTR_CYCLE_CAP = None
      \<and> data ATTR_VOLTAGE = Some v \<and> data ATTR_CYCLE_CHRG = Some c"
    and p: "py_mul v c = Inr p"
  from g p have "calc_cycle_cap values data = (Normal, data(ATTR_CYCLE_CAP \<mapsto> p))"
    by (simp add: calc_cycle_cap_eq can_calc_def dom_def assign_def)
  then have "calc_values data values
      = run_rules [Power, Charging, Runtime] values (data(ATTR_CYCLE_CAP \<mapsto> p))"
    by (simp add: calc_values_first)
  moreover have "snd (run_rules [Power, Charging, Runtime] values (data(ATTR_CYCLE_CAP \<mapsto> p)))
      ATTR_CYCLE_CAP = Some p"
    by (rule run_rules_keeps) simp
  ultimately show "snd (calc_values data values) ATTR_CYCLE_CAP = Some p" by simp
next
  fix e
  assume g: "ATTR_CYCLE_CAP \<in> values \<and> data ATTR_CYCLE_CAP = None
      \<and> data ATTR_VOLTAGE = Some v \<and> data ATTR_CYCLE_CHRG = Some c"
    and e: "py_mul v c = Inl e"
  from e show "e = OverflowError" by (rule py_mul_error)
  from g e have "calc_cycle_cap values data = (Raised e, data)"
    by (simp add: calc_cycle_cap_eq can_calc_def dom_def assign_def)
  then show "calc_values data values = (Raised e, data)"
    by (simp add: calc_values_first)
next
  show "calc_values [ATTR_VOLTAGE \<mapsto> PyFloat (Finite False 3 2),
                   ATTR_CYCLE_CHRG \<mapsto> PyFloat (Finite False 5 1)] {ATTR_CYCLE_CAP}
       = (Normal, [ATTR_VOLTAGE \<mapsto> PyFloat (Finite False 3 2),
                   ATTR_CYCLE_CHRG \<mapsto> PyFloat (Finite False 5 1),
                   ATTR_CYCLE_CAP \<mapsto> PyFloat (Finite False 15 3)])"
    by (simp add: calc_unfold op_eval float_eval)
next
  show "calc_values [ATTR_VOLTAGE \<mapsto> PyInt 48, ATTR_CYCLE_CHRG \<mapsto> PyInt 10] {ATTR_CYCLE_CAP}
       = (Normal, [ATTR_VOLTAGE \<mapsto> PyInt 48, ATTR_CYCLE_CHRG \<mapsto> PyInt 10,
                   ATTR_CYCLE_CAP \<mapsto> PyInt 480])"
    by (simp add: calc_unfold op_eval)
next
  show "calc_values [ATTR_VOLTAGE \<mapsto> PyFloat (Finite False 3602879701896397 (- 55)),
                   ATTR_CYCLE_CHRG \<mapsto> PyInt 3] {ATTR_CYCLE_CAP}
       = (Normal, [ATTR_VOLTAGE \<mapsto> PyFloat (Finite False 3602879701896397 (- 55)),
                   ATTR_CYCLE_CHRG \<mapsto> PyInt 3,
                   ATTR_CYCLE_CAP \<mapsto> PyFloat (Finite False 1351079888211149 (- 52))])"
    by (simp add: calc_unfold op_eval float_eval)
qed

theorem calc_values_cycle_cap_witness:
  "snd (calc_values [ATTR_VOLTAGE \<mapsto> PyInt 48, ATTR_CYCLE_CHRG \<mapsto> PyFloat (Finite False 5 (- 1)),
          ATTR_POWER \<mapsto> PyInt 7] {ATTR_CYCLE_CAP, ATTR_POWER}) ATTR_CYCLE_CAP
     = Some (PyFloat (Finite False 15 3))
   \<and> calc_values [ATTR_VOLTAGE \<mapsto> PyInt (2 ^ 1024), ATTR_CYCLE_CHRG \<mapsto> PyFloat (Finite False 5 (- 1))]
        {ATTR_CYCLE_CAP}
     = (Raised OverflowError,
        [ATTR_VOLTAGE \<mapsto> PyInt (2 ^ 1024), ATTR_CYCLE_CHRG \<mapsto> PyFloat (Finite False 5 (- 1))])"
proof -
  let ?d = "[ATTR_VOLTAGE \<mapsto> PyInt 48, ATTR_CYCLE_CHRG \<mapsto> PyFloat (Finite False 5 (- 1)),
             ATTR_POWER \<mapsto> PyInt 7]"
  let ?e = "[ATTR_VOLTAGE \<mapsto> PyInt (2 ^ 1024), ATTR_CYCLE_CHRG \<mapsto> PyFloat (Finite False 5 (- 1))]"
  have m: "py_mul (PyInt 48) (PyFloat (Finite False 5 (- 1))) = Inr (PyFloat (Finite False 15 3))"
    by (simp add: op_eval float_eval bind_err_def)
  have "ATTR_CYCLE_CAP \<in> {ATTR_CYCLE_CAP, ATTR_POWER} \<and> ?d ATTR_CYCLE_CAP = None
      \<and> ?d ATTR_VOLTAGE = Some (PyInt 48)
      \<and> ?d ATTR_CYCLE_CHRG = Some (PyFloat (Finite False 5 (- 1)))"
    by simp
  with m calc_values_cycle_cap [of "{ATTR_CYCLE_CAP, ATTR_POWER}" ?d "PyInt 48"
      "PyFloat (Finite False 5 (- 1))"]
  have a: "snd (calc_values ?d {ATTR_CYCLE_CAP, ATTR_POWER}) ATTR_CYCLE_CAP
          = Some (PyFloat (Finite False 15 3))"
    by blast
  have o: "py_mul (PyInt (2 ^ 1024)) (PyFloat (Finite False 5 (- 1))) = Inl OverflowError"
    by (simp add: py_mul_overflow)
  have "ATTR_CYCLE_CAP \<in> {ATTR_CYCLE_CAP} \<and> ?e ATTR_CYCLE_CAP = None
      \<and> ?e ATTR_VOLTAGE = Some (PyInt (2 ^ 1024))
      \<and> ?e ATTR_CYCLE_CHRG = Some (PyFloat (Finite False 5 (- 1)))"
    by simp
  with o calc_values_cycle_cap [of "{ATTR_CYCLE_CAP}" ?e "PyInt (2 ^ 1024)"
      "PyFloat (Finite False 5 (- 1))"]
  have b: "calc_values ?e {ATTR_CYCLE_CAP} = (Raised OverflowError, ?e)"
    by blast
  from a b show ?thesis by simp
qed




text \<open>
  The claim C5 as the spec states it fails when the arithmetic of the runtime rule raises:
  with the \<open>int\<close> current -1 and the \<open>int\<close> cycle-charge \<open>2 ^ 1024\<close> the division raises
  \<open>OverflowError\<close> ("integer division result too large for a float") and runtime stays
  absent although the current is negative.
\<close>

theorem calc_values_runtime_counterexample:
  "ATTR_RUNTIME \<in> {ATTR_RUNTIME}
   \<and> py_lt (PyInt (- 1)) (PyInt 0)
   \<and> calc_values [ATTR_CURRENT \<mapsto> PyInt (- 1), ATTR_CYCLE_CHRG \<mapsto> PyInt (2 ^ 1024)] {ATTR_RUNTIME}
      = (Raised OverflowError, [ATTR_CURRENT \<mapsto> PyInt (- 1), ATTR_CYCLE_CHRG \<mapsto> PyInt (2 ^ 1024)])
   \<and> snd (calc_values [ATTR_CURRENT \<mapsto> PyInt (- 1), ATTR_CYCLE_CHRG \<mapsto> PyInt (2 ^ 1024)]
        {ATTR_RUNTIME}) ATTR_RUNTIME = None"
  by (simp add: calc_unfold py_truediv_overflow py_lt_def)

text \<open>
  Claim C5, amended. When runtime is requested and absent and current and cycle-charge
  are present: if current is not less than 0, runtime stays absent; if current is less
  than 0 and \<open>calc_values\<close> returns normally, runtime is bound to the value of
  \<open>int(cycle-charge / abs(current) * 3600)\<close> in Python's arithmetic. From current -5.0 and
  cycle-charge 10.0 the mapping gains runtime 7200; from current 5.0, and from current 0,
  it gains nothing; from current -3 and cycle-charge 13 it gains 15599 (the quotient is
  rounded before the product), and with cycle-charge -13 it gains -15599 (truncation is
  towards zero).
\<close>

theorem calc_values_runtime:
  "(ATTR_RUNTIME \<in> values \<and> data ATTR_RUNTIME = None
      \<and> data ATTR_CURRENT = Some i \<and> data ATTR_CYCLE_CHRG = Some c
    \<longrightarrow> (\<not> py_lt i (PyInt 0) \<longrightarrow> snd (calc_values data values) ATTR_RUNTIME = None)
        \<and> (py_lt i (PyInt 0) \<and> fst (calc_values data values) = Normal
           \<longrightarrow> (\<exists>n. bind_err (py_truediv c (py_abs i))
                       (\<lambda>q. bind_err (py_mul q HRS_TO_SECS) py_int) = Inr n
                    \<and> snd (calc_values data values) ATTR_RUNTIME = Some n)))
   \<and> calc_values [ATTR_CURRENT \<mapsto> PyFloat (Finite True 5 0),
                   ATTR_CYCLE_CHRG \<mapsto> PyFloat (Finite False 5 1)] {ATTR_RUNTIME}
       = (Normal, [ATTR_CURRENT \<mapsto> PyFloat (Finite True 5 0),
                   ATTR_CYCLE_CHRG \<mapsto> PyFloat (Finite False 5 1),
                   ATTR_RUNTIME \<mapsto> PyInt 7200])
   \<and> calc_values [ATTR_CURRENT \<mapsto> PyFloat (Finite False 5 0),
                   ATTR_CYCLE_CHRG \<mapsto> PyFloat (Finite False 5 1)] {ATTR_RUNTIME}
       = (Normal, [ATTR_CURRENT \<mapsto> PyFloat (Finite False 5 0),
                   ATTR_CYCLE_CHRG \<mapsto> PyFloat (Finite False 5 1)])
   \<and> calc_values [ATTR_CURRENT \<mapsto> PyInt 0, ATTR_CYCLE_CHRG \<mapsto> PyFloat (Finite False 5 1)]
         {ATTR_RUNTIME}
       = (Normal, [ATTR_CURRENT \<mapsto> PyInt 0, ATTR_CYCLE_CHRG \<mapsto> PyFloat (Finite False 5 1)])
   \<and> calc_values [ATTR_CURRENT \<mapsto> PyInt (- 3), ATTR_CYCLE_CHRG \<mapsto> PyInt 13] {ATTR_RUNTIME}
       = (Normal, [ATTR_CURRENT \<mapsto> PyInt (- 3), ATTR_CYCLE_CHRG \<mapsto> PyInt 13,
                   ATTR_RUNTIME \<mapsto> PyInt 15599])
   \<and> calc_values [ATTR_CURRENT \<mapsto> PyInt (- 3), ATTR_CYCLE_CHRG \<mapsto> PyInt (- 13)] {ATTR_RUNTIME}
       = (Normal, [ATTR_CURRENT \<mapsto> PyInt (- 3), ATTR_CYCLE_CHRG \<mapsto> PyInt (- 13),
                   ATTR_RUNTIME \<mapsto> PyInt (- 15599)])"
proof (intro conjI impI)
  assume g: "ATTR_RUNTIME \<in> values \<and> data ATTR_RUNTIME = None
      \<and> data ATTR_CURRENT = Some i \<and> data ATTR_CYCLE_CHRG = Some c"
    and n: "\<not> py_lt i (PyInt 0)"
  from g n have "calc_runtime values data = (Normal, data)"
    by (simp add: calc_runtime_eq)
  with g calc_values_target [of data "values" Runtime]
  show "snd (calc_values data values) ATTR_RUNTIME = None" by simp
next
  assume g: "ATTR_RUNTIME \<in> values \<and> data ATTR_RUNTIME = None
      \<and> data ATTR_CURRENT = Some i \<and> data ATTR_CYCLE_CHRG = Some c"
    and l: "py_lt i (PyInt 0) \<and> fst (calc_values data values) = Normal"
  let ?x = "bind_err (py_truediv c (py_abs i)) (\<lambda>q. bind_err (py_mul q HRS_TO_SECS) py_int)"
  from g l have f: "calc_runtime values data = assign ATTR_RUNTIME ?x data"
    by (simp add: calc_runtime_eq can_calc_def dom_def)
  from l have "fst (apply_rule Runtime values data) = Normal"
    by (intro calc_values_all_normal) simp
  with f obtain n where x: "?x = Inr n"
    by (cases ?x) (simp_all add: assign_def)
  from l have "snd (calc_values data values) (rule_target Runtime)
      = snd (apply_rule Runtime values data) (rule_target Runtime)"
    by (intro calc_values_target_normal) simp
  with f x have "snd (calc_values data values) ATTR_RUNTIME = Some n"
    by (simp add: assign_def)
  with x show "\<exists>n. ?x = Inr n \<and> snd (calc_values data values) ATTR_RUNTIME = Some n"
    by blast
next
  show "calc_values [ATTR_CURRENT \<mapsto> PyFloat (Finite True 5 0),
                   ATTR_CYCLE_CHRG \<mapsto> PyFloat (Finite False 5 1)] {ATTR_RUNTIME}
       = (Normal, [ATTR_CURRENT \<mapsto> PyFloat (Finite True 5 0),
                   ATTR_CYCLE_CHRG \<mapsto> PyFloat (Finite False 5 1),
                   ATTR_RUNTIME \<mapsto> PyInt 7200])"
    by (simp add: calc_unfold op_eval float_eval)
next
  show "calc_values [ATTR_CURRENT \<mapsto> PyFloat (Finite False 5 0),
                   ATTR_CYCLE_CHRG \<mapsto> PyFloat (Finite False 5 1)] {ATTR_RUNTIME}
       = (Normal, [ATTR_CURRENT \<mapsto> PyFloat (Finite False 5 0),
                   ATTR_CYCLE_CHRG \<mapsto> PyFloat (Finite False 5 1)])"
    by (simp add: calc_unfold op_eval)
next
  show "calc_values [ATTR_CURRENT \<mapsto> PyInt 0, ATTR_CYCLE_CHRG \<mapsto> PyFloat (Finite False 5 1)]
         {ATTR_RUNTIME}
       = (Normal, [ATTR_CURRENT \<mapsto> PyInt 0, ATTR_CYCLE_CHRG \<mapsto> PyFloat (Finite False 5 1)])"
    by (simp add: calc_unfold op_eval)
next
  show "calc_values [ATTR_CURRENT \<mapsto> PyInt (- 3), ATTR_CYCLE_CHRG \<mapsto> PyInt 13] {ATTR_RUNTIME}
       = (Normal, [ATTR_CURRENT \<mapsto> PyInt (- 3), ATTR_CYCLE_CHRG \<mapsto> PyInt 13,
                   ATTR_RUNTIME \<mapsto> PyInt 15599])"
    by (simp add: calc_unfold op_eval float_eval)
next
  show "calc_values [ATTR_CURRENT \<mapsto> PyInt (- 3), ATTR_CYCLE_CHRG \<mapsto> PyInt (- 13)] {ATTR_RUNTIME}
       = (Normal, [ATTR_CURRENT \<mapsto> PyInt (- 3), ATTR_CYCLE_CHRG \<mapsto> PyInt (- 13),
                   ATTR_RUNTIME \<mapsto> PyInt (- 15599)])"
    by (simp add: calc_unfold op_eval float_eval)
qed

theorem calc_values_runtime_witness:
  "snd (calc_values [ATTR_CURRENT \<mapsto> PyInt (- 7), ATTR_CYCLE_CHRG \<mapsto> PyInt 10] {ATTR_RUNTIME})
     ATTR_RUNTIME = Some (PyInt 5142)
   \<and> snd (calc_values [ATTR_CURRENT \<mapsto> PyInt 7, ATTR_CYCLE_CHRG \<mapsto> PyInt 10] {ATTR_RUNTIME})
     ATTR_RUNTIME = None"
proof -
  let ?d = "[ATTR_CURRENT \<mapsto> PyInt (- 7), ATTR_CYCLE_CHRG \<mapsto> PyInt 10]"
  let ?e = "[ATTR_CURRENT \<mapsto> PyInt 7, ATTR_CYCLE_CHRG \<mapsto> PyInt 10]"
  have x: "bind_err (py_truediv (PyInt 10) (py_abs (PyInt (- 7))))
      (\<lambda>q. bind_err (py_mul q HRS_TO_SECS) py_int) = Inr (PyInt 5142)"
    by (simp add: op_eval float_eval bind_err_def)
  have n: "py_lt (PyInt (- 7)) (PyInt 0) \<and> fst (calc_values ?d {ATTR_RUNTIME}) = Normal"
    by (simp add: calc_unfold op_eval float_eval)
  have "ATTR_RUNTIME \<in> {ATTR_RUNTIME} \<and> ?d ATTR_RUNTIME = None
      \<and> ?d ATTR_CURRENT = Some (PyInt (- 7)) \<and> ?d ATTR_CYCLE_CHRG = Some (PyInt 10)"
    by simp
  with n calc_values_runtime [of "{ATTR_RUNTIME}" ?d "PyInt (- 7)" "PyInt 10"]
  have "\<exists>n. bind_err (py_truediv (PyInt 10) (py_abs (PyInt (- 7))))
      (\<lambda>q. bind_err (py_mul q HRS_TO_SECS) py_int) = Inr n
      \<and> snd (calc_values ?d {ATTR_RUNTIME}) ATTR_RUNTIME = Some n"
    by blast
  with x have a: "snd (calc_values ?d {ATTR_RUNTIME}) ATTR_RUNTIME = Some (PyInt 5142)"
    by auto
  have m: "\<not> py_lt (PyInt 7) (PyInt 0)" by (simp add: py_lt_def)
  have "ATTR_RUNTIME \<in> {ATTR_RUNTIME} \<and> ?e ATTR_RUNTIME = None
      \<and> ?e ATTR_CURRENT = Some (PyInt 7) \<and> ?e ATTR_CYCLE_CHRG = Some (PyInt 10)"
    by simp
  with m calc_values_runtime [of "{ATTR_RUNTIME}" ?e "PyInt 7" "PyInt 10"]
  have b: "snd (calc_values ?e {ATTR_RUNTIME}) ATTR_RUNTIME = None"
    by blast
  from a b show ?thesis by simp
qed

text \<open>
  The claim C6 as the spec states it fails for the call as a whole: with the \<open>int\<close> current
  -1 and the \<open>int\<close> cycle-charge \<open>2 ^ 1024\<close>, power and runtime requested, the power rule
  lacks voltage and is skipped, and the call still raises \<open>OverflowError\<close>, from the
  runtime rule.
\<close>

theorem calc_values_skips_missing_counterexample:
  "\<not> {ATTR_VOLTAGE, ATTR_CURRENT}
       \<subseteq> dom [ATTR_CURRENT \<mapsto> PyInt (- 1), ATTR_CYCLE_CHRG \<mapsto> PyInt (2 ^ 1024)]
   \<and> calc_values [ATTR_CURRENT \<mapsto> PyInt (- 1), ATTR_CYCLE_CHRG \<mapsto> PyInt (2 ^ 1024)]
        {ATTR_POWER, ATTR_RUNTIME}
      = (Raised OverflowError, [ATTR_CURRENT \<mapsto> PyInt (- 1), ATTR_CYCLE_CHRG \<mapsto> PyInt (2 ^ 1024)])"
  by (simp add: calc_unfold py_truediv_overflow py_lt_def)

text \<open>
  Claim C6, amended. A rule whose prerequisite keys are not all present never raises: it
  leaves the mapping as it is, and its target key is bound after the call as it was
  before (absent if it was absent). Every key present before the call keeps its value.
  \<open>calc_values\<close> never raises \<open>KeyError\<close>: the only errors it raises are
  \<open>OverflowError\<close> and \<open>ValueError\<close>, from the arithmetic of a rule whose prerequisites are
  present. When the prerequisites of every rule are missing the call returns normally with
  the mapping unchanged.
\<close>

theorem calc_values_skips_missing:
  "(\<not> {ATTR_VOLTAGE, ATTR_CYCLE_CHRG} \<subseteq> dom data
        \<longrightarrow> calc_cycle_cap values data = (Normal, data)
          \<and> snd (calc_values data values) ATTR_CYCLE_CAP = data ATTR_CYCLE_CAP)
   \<and> (\<not> {ATTR_VOLTAGE, ATTR_CURRENT} \<subseteq> dom data
        \<longrightarrow> calc_power values data = (Normal, data)
          \<and> snd (calc_values data values) ATTR_POWER = data ATTR_POWER)
   \<and> (\<not> {ATTR_CURRENT} \<subseteq> dom data
        \<longrightarrow> calc_charging values data = (Normal, data)
          \<and> snd (calc_values data values) ATTR_BATTERY_CHARGING = data ATTR_BATTERY_CHARGING)
   \<and> (\<not> {ATTR_CURRENT, ATTR_CYCLE_CHRG} \<subseteq> dom data
        \<longrightarrow> calc_runtime values data = (Normal, data)
          \<and> snd (calc_values data values) ATTR_RUNTIME = data ATTR_RUNTIME)
   \<and> (\<forall>k\<in>dom data. snd (calc_values data values) k = data k)
   \<and> (\<forall>e. fst (calc_values data values) = Raised e \<longrightarrow> e = OverflowError \<or> e = ValueError)
   \<and> (\<not> {ATTR_VOLTAGE, ATTR_CYCLE_CHRG} \<subseteq> dom data \<and> \<not> {ATTR_VOLTAGE, ATTR_CURRENT} \<subseteq> dom data
      \<and> \<not> {ATTR_CURRENT} \<subseteq> dom data \<and> \<not> {ATTR_CURRENT, ATTR_CYCLE_CHRG} \<subseteq> dom data
        \<longrightarrow> calc_values data values = (Normal, data))"
proof -
  have skip: "apply_rule r values data = (Normal, data)
      \<and> snd (calc_values data values) (rule_target r) = data (rule_target r)"
    if "\<not> rule_using r \<subseteq> dom data" for r
  proof -
    from that have s: "apply_rule r values data = (Normal, data)"
      by (intro apply_rule_skip) simp
    with calc_values_target [of data "values" r] show ?thesis by simp
  qed
  have keep: "\<forall>k\<in>dom data. snd (calc_values data values) k = data k"
    unfolding calc_values_run by (auto intro: run_rules_keeps)
  have err: "\<forall>e. fst (calc_values data values) = Raised e \<longrightarrow> e = OverflowError \<or> e = ValueError"
    unfolding calc_values_run by (auto dest: run_rules_error)
  have none: "calc_values data values = (Normal, data)"
    if "\<not> {ATTR_VOLTAGE, ATTR_CYCLE_CHRG} \<subseteq> dom data \<and> \<not> {ATTR_VOLTAGE, ATTR_CURRENT} \<subseteq> dom data
      \<and> \<not> {ATTR_CURRENT} \<subseteq> dom data \<and> \<not> {ATTR_CURRENT, ATTR_CYCLE_CHRG} \<subseteq> dom data"
    using that skip [of CycleCap] skip [of Power] skip [of Charging] skip [of Runtime]
    by (simp add: calc_values_def then_stmt_def)
  from skip [of CycleCap] skip [of Power] skip [of Charging] skip [of Runtime] keep err none
  show ?thesis by simp
qed

theorem calc_values_skips_missing_witness:
  "calc_values [ATTR_CURRENT \<mapsto> PyFloat (Finite False 1 1)]
      {ATTR_CYCLE_CAP, ATTR_POWER, ATTR_BATTERY_CHARGING, ATTR_RUNTIME}
     = (Normal, [ATTR_CURRENT \<mapsto> PyFloat (Finite False 1 1), ATTR_BATTERY_CHARGING \<mapsto> PyBool True])
   \<and> calc_values [ATTR_VOLTAGE \<mapsto> PyFloat (Finite False 3 2)]
      {ATTR_CYCLE_CAP, ATTR_POWER, ATTR_BATTERY_CHARGING, ATTR_RUNTIME}
     = (Normal, [ATTR_VOLTAGE \<mapsto> PyFloat (Finite False 3 2)])"
proof -
  let ?d = "[ATTR_CURRENT \<mapsto> PyFloat (Finite False 1 1)]"
  let ?e = "[ATTR_VOLTAGE \<mapsto> PyFloat (Finite False 3 2)]"
  let ?r = "{ATTR_CYCLE_CAP, ATTR_POWER, ATTR_BATTERY_CHARGING, ATTR_RUNTIME}"
  have m: "\<not> {ATTR_VOLTAGE, ATTR_CYCLE_CHRG} \<subseteq> dom ?d" "\<not> {ATTR_VOLTAGE, ATTR_CURRENT} \<subseteq> dom ?d"
    "\<not> {ATTR_CURRENT, ATTR_CYCLE_CHRG} \<subseteq> dom ?d"
    by simp_all
  from calc_values_skips_missing [of ?d ?r] m
  have a: "snd (calc_values ?d ?r) ATTR_CYCLE_CAP = ?d ATTR_CYCLE_CAP"
    and b: "snd (calc_values ?d ?r) ATTR_POWER = ?d ATTR_POWER"
    and c: "snd (calc_values ?d ?r) ATTR_RUNTIME = ?d ATTR_RUNTIME"
    by blast+
  have 1: "calc_values ?d ?r = (Normal, [ATTR_CURRENT \<mapsto> PyFloat (Finite False 1 1),
      ATTR_BATTERY_CHARGING \<mapsto> PyBool True])"
    by (simp add: calc_unfold op_eval)
  have n: "\<not> {ATTR_VOLTAGE, ATTR_CYCLE_CHRG} \<subseteq> dom ?e \<and> \<not> {ATTR_VOLTAGE, ATTR_CURRENT} \<subseteq> dom ?e
      \<and> \<not> {ATTR_CURRENT} \<subseteq> dom ?e \<and> \<not> {ATTR_CURRENT, ATTR_CYCLE_CHRG} \<subseteq> dom ?e"
    by simp
  with calc_values_skips_missing [of ?e ?r] have 2: "calc_values ?e ?r = (Normal, ?e)"
    by blast
  from 1 2 show ?thesis by simp
qed

text \<open>
  Claim C7. \<open>supported\<close> is true exactly when some matcher descriptor of the list matches
  the discovery record, whatever the matching predicate is; when none of them matches it
  is false.
\<close>

theorem supported_iff_any:
  "(supported ble_device_matches BluetoothMatcherOptional matcher_dict_list discovery_info
     \<longleftrightarrow> (\<exists>m \<in> set matcher_dict_list.
            ble_device_matches (BluetoothMatcherOptional m) discovery_info))
   \<and> ((\<forall>m \<in> set matcher_dict_list.
          \<not> ble_device_matches (BluetoothMatcherOptional m) discovery_info)
       \<longrightarrow> \<not> supported ble_device_matches BluetoothMatcherOptional matcher_dict_list
               discovery_info)"
proof -
  have "supported ble_device_matches BluetoothMatcherOptional matcher_dict_list discovery_info
     \<longleftrightarrow> (\<exists>m \<in> set matcher_dict_list.
            ble_device_matches (BluetoothMatcherOptional m) discovery_info)"
    by (induction matcher_dict_list) auto
  then show ?thesis by blast
qed

theorem supported_iff_any_witness:
  "supported (\<lambda>m d. m \<in> set d) (\<lambda>k. k) [''fff0'', ''ffe0''] [''180a'', ''ffe0'']
   \<and> \<not> supported (\<lambda>m d. m \<in> set d) (\<lambda>k. k) [''fff0'', ''ffe0''] [''180a'']"
proof -
  let ?f = "\<lambda>(m :: string) d. m \<in> set d"
  let ?g = "\<lambda>k :: string. k"
  have a: "\<exists>m \<in> set [''fff0'', ''ffe0'']. ?f (?g m) [''180a'', ''ffe0'']"
    by simp
  have b: "\<forall>m \<in> set [''fff0'', ''ffe0'']. \<not> ?f (?g m) [''180a'']"
    by simp
  from a supported_iff_any [of ?f ?g "[''fff0'', ''ffe0'']" "[''180a'', ''ffe0'']"]
  have "supported ?f ?g [''fff0'', ''ffe0''] [''180a'', ''ffe0'']"
    by blast
  moreover from b supported_iff_any [of ?f ?g "[''fff0'', ''ffe0'']" "[''180a'']"]
  have "\<not> supported ?f ?g [''fff0'', ''ffe0''] [''180a'']"
    by blast
  ultimately show ?thesis by simp
qed

text \<open>
  The claim C8 as the spec states it fails when a rule raises: with voltage 2, current -1
  and the \<open>int\<close> cycle-charge \<open>2 ^ 1024\<close>, all four keys requested, the runtime rule raises
  \<open>OverflowError\<close>. In the source's order the three rules before it have added their
  keys; with the runtime rule first nothing is added.
\<close>

theorem rules_order_insensitive_counterexample:
  "mset [Runtime, CycleCap, Power, Charging] = mset [CycleCap, Power, Charging, Runtime]
   \<and> calc_values
        [ATTR_VOLTAGE \<mapsto> PyInt 2, ATTR_CURRENT \<mapsto> PyInt (- 1), ATTR_CYCLE_CHRG \<mapsto> PyInt (2 ^ 1024)]
        {ATTR_CYCLE_CAP, ATTR_POWER, ATTR_BATTERY_CHARGING, ATTR_RUNTIME}
      = (Raised OverflowError,
         [ATTR_VOLTAGE \<mapsto> PyInt 2, ATTR_CURRENT \<mapsto> PyInt (- 1), ATTR_CYCLE_CHRG \<mapsto> PyInt (2 ^ 1024),
          ATTR_CYCLE_CAP \<mapsto> PyInt (2 * 2 ^ 1024), ATTR_POWER \<mapsto> PyInt (- 2),
          ATTR_BATTERY_CHARGING \<mapsto> PyBool False])
   \<and> run_rules [Runtime, CycleCap, Power, Charging]
        {ATTR_CYCLE_CAP, ATTR_POWER, ATTR_BATTERY_CHARGING, ATTR_RUNTIME}
        [ATTR_VOLTAGE \<mapsto> PyInt 2, ATTR_CURRENT \<mapsto> PyInt (- 1), ATTR_CYCLE_CHRG \<mapsto> PyInt (2 ^ 1024)]
      = (Raised OverflowError,
         [ATTR_VOLTAGE \<mapsto> PyInt 2, ATTR_CURRENT \<mapsto> PyInt (- 1), ATTR_CYCLE_CHRG \<mapsto> PyInt (2 ^ 1024)])
   \<and> snd (run_rules [Runtime, CycleCap, Power, Charging]
        {ATTR_CYCLE_CAP, ATTR_POWER, ATTR_BATTERY_CHARGING, ATTR_RUNTIME}
        [ATTR_VOLTAGE \<mapsto> PyInt 2, ATTR_CURRENT \<mapsto> PyInt (- 1), ATTR_CYCLE_CHRG \<mapsto> PyInt (2 ^ 1024)])
       ATTR_POWER
      \<noteq> snd (calc_values
        [ATTR_VOLTAGE \<mapsto> PyInt 2, ATTR_CURRENT \<mapsto> PyInt (- 1), ATTR_CYCLE_CHRG \<mapsto> PyInt (2 ^ 1024)]
        {ATTR_CYCLE_CAP, ATTR_POWER, ATTR_BATTERY_CHARGING, ATTR_RUNTIME}) ATTR_POWER"
  by (simp add: calc_unfold run_rules.simps(2) py_truediv_overflow py_mul_int py_lt_def py_gt_def)

text \<open>
  Claim C8, amended. The four rules are independent: the key a rule writes is neither
  read nor written by another rule, and the written keys (cycle-capacity, power,
  charging-flag, runtime) are disjoint from the keys the rules use (voltage, current,
  cycle-charge). Here a rule changes no key but its target, and how it ends and what it
  binds its target to depend only on the target and the keys it uses. Hence, when
  \<open>calc_values\<close> returns normally, running the four rules in any order returns normally
  with the same mapping; and an order of the four rules returns normally exactly when
  \<open>calc_values\<close> does.
\<close>

theorem rules_order_insensitive:
  "(\<forall>r r'. r \<noteq> r' \<longrightarrow> rule_target r \<notin> insert (rule_target r') (rule_using r'))
   \<and> rule_target ` UNIV = {ATTR_CYCLE_CAP, ATTR_POWER, ATTR_BATTERY_CHARGING, ATTR_RUNTIME}
   \<and> \<Union> (rule_using ` UNIV) = {ATTR_VOLTAGE, ATTR_CURRENT, ATTR_CYCLE_CHRG}
   \<and> rule_target ` UNIV \<inter> \<Union> (rule_using ` UNIV) = {}
   \<and> (\<forall>r k d. k \<noteq> rule_target r \<longrightarrow> snd (apply_rule r values d) k = d k)
   \<and> (\<forall>r d d'. (\<forall>k \<in> insert (rule_target r) (rule_using r). d' k = d k)
        \<longrightarrow> fst (apply_rule r values d') = fst (apply_rule r values d)
          \<and> snd (apply_rule r values d') (rule_target r)
              = snd (apply_rule r values d) (rule_target r))
   \<and> (mset rs = mset [CycleCap, Power, Charging, Runtime]
        \<and> fst (calc_values data values) = Normal
        \<longrightarrow> run_rules rs values data = calc_values data values)
   \<and> (mset rs = mset [CycleCap, Power, Charging, Runtime]
        \<longrightarrow> (fst (run_rules rs values data) = Normal
              \<longleftrightarrow> fst (calc_values data values) = Normal))"
proof (intro conjI allI impI)
  fix r r' :: rule
  assume "r \<noteq> r'"
  then show "rule_target r \<notin> insert (rule_target r') (rule_using r')"
    by (rule rule_reads_other)
next
  show t: "rule_target ` UNIV = {ATTR_CYCLE_CAP, ATTR_POWER, ATTR_BATTERY_CHARGING, ATTR_RUNTIME}"
    by (simp add: rule_UNIV)
  show u: "\<Union> (rule_using ` UNIV) = {ATTR_VOLTAGE, ATTR_CURRENT, ATTR_CYCLE_CHRG}"
    by (auto simp: rule_UNIV)
  show "rule_target ` UNIV \<inter> \<Union> (rule_using ` UNIV) = {}"
    unfolding t u by simp
next
  fix r k and d :: bmsdata
  assume "k \<noteq> rule_target r"
  then show "snd (apply_rule r values d) k = d k"
    by (rule apply_rule_frame)
next
  fix r and d d' :: bmsdata
  assume a: "\<forall>k \<in> insert (rule_target r) (rule_using r). d' k = d k"
  then show "fst (apply_rule r values d') = fst (apply_rule r values d)"
    by (rule apply_rule_local(1))
  from a show "snd (apply_rule r values d') (rule_target r)
            = snd (apply_rule r values d) (rule_target r)"
    by (rule apply_rule_local(2))
next
  assume a: "mset rs = mset [CycleCap, Power, Charging, Runtime]
    \<and> fst (calc_values data values) = Normal"
  then have "\<forall>r. fst (apply_rule r values data) = Normal"
    by (auto intro: calc_values_all_normal)
  with a have "run_rules rs values data = run_rules [CycleCap, Power, Charging, Runtime] values data"
    by (intro run_rules_permute) simp_all
  then show "run_rules rs values data = calc_values data values"
    by (simp only: calc_values_run)
next
  assume m: "mset rs = mset [CycleCap, Power, Charging, Runtime]"
  show "fst (run_rules rs values data) = Normal \<longleftrightarrow> fst (calc_values data values) = Normal"
  proof
    assume n: "fst (run_rules rs values data) = Normal"
    from m have d: "distinct rs"
      using mset_eq_imp_distinct_iff [of rs "[CycleCap, Power, Charging, Runtime]"] by simp
    from m have s: "set rs = set [CycleCap, Power, Charging, Runtime]"
      by (rule mset_eq_setD)
    have "\<forall>r. fst (apply_rule r values data) = Normal"
    proof
      fix r
      from s source_order_set have "r \<in> set rs" by blast
      with d n show "fst (apply_rule r values data) = Normal"
        by (intro run_rules_all_normal [of rs "values" data r])
    qed
    with m have "run_rules rs values data = run_rules [CycleCap, Power, Charging, Runtime] values data"
      by (intro run_rules_permute) simp_all
    with n show "fst (calc_values data values) = Normal"
      by (simp only: calc_values_run)
  next
    assume n: "fst (calc_values data values) = Normal"
    then have "\<forall>r. fst (apply_rule r values data) = Normal"
      by (auto intro: calc_values_all_normal)
    with m have "run_rules rs values data = run_rules [CycleCap, Power, Charging, Runtime] values data"
      by (intro run_rules_permute) simp_all
    with n show "fst (run_rules rs values data) = Normal"
      by (simp only: calc_values_run)
  qed
qed

theorem rules_order_insensitive_witness:
  "run_rules [Runtime, Charging, Power, CycleCap]
      {ATTR_CYCLE_CAP, ATTR_POWER, ATTR_BATTERY_CHARGING, ATTR_RUNTIME}
      [ATTR_VOLTAGE \<mapsto> PyInt 50, ATTR_CURRENT \<mapsto> PyInt (- 5), ATTR_CYCLE_CHRG \<mapsto> PyInt 10]
   = (Normal,
      [ATTR_VOLTAGE \<mapsto> PyInt 50, ATTR_CURRENT \<mapsto> PyInt (- 5), ATTR_CYCLE_CHRG \<mapsto> PyInt 10,
       ATTR_CYCLE_CAP \<mapsto> PyInt 500, ATTR_POWER \<mapsto> PyInt (- 250),
       ATTR_BATTERY_CHARGING \<mapsto> PyBool False, ATTR_RUNTIME \<mapsto> PyInt 7200])"
proof -
  let ?d = "[ATTR_VOLTAGE \<mapsto> PyInt 50, ATTR_CURRENT \<mapsto> PyInt (- 5), ATTR_CYCLE_CHRG \<mapsto> PyInt 10]"
  let ?r = "{ATTR_CYCLE_CAP, ATTR_POWER, ATTR_BATTERY_CHARGING, ATTR_RUNTIME}"
  have c: "calc_values ?d ?r = (Normal,
      [ATTR_VOLTAGE \<mapsto> PyInt 50, ATTR_CURRENT \<mapsto> PyInt (- 5), ATTR_CYCLE_CHRG \<mapsto> PyInt 10,
       ATTR_CYCLE_CAP \<mapsto> PyInt 500, ATTR_POWER \<mapsto> PyInt (- 250),
       ATTR_BATTERY_CHARGING \<mapsto> PyBool False, ATTR_RUNTIME \<mapsto> PyInt 7200])"
    by (simp add: calc_unfold op_eval float_eval)
  then have "mset [Runtime, Charging, Power, CycleCap] = mset [CycleCap, Power, Charging, Runtime]
      \<and> fst (calc_values ?d ?r) = Normal"
    by simp
  with rules_order_insensitive [of ?r "[Runtime, Charging, Power, CycleCap]" ?d]
  have "run_rules [Runtime, Charging, Power, CycleCap] ?r ?d = calc_values ?d ?r"
    by blast
  with c show ?thesis by simp
qed

text \<open>
  Claim C9. \<open>calc_values\<close> is idempotent: run again with the same requested set on the
  mapping it left, it leaves that mapping unchanged, and ends as the first call did.
\<close>

theorem calc_values_idempotent:
  "snd (calc_values (snd (calc_values data values)) values) = snd (calc_values data values)
   \<and> calc_values (snd (calc_values data values)) values = calc_values data values"
proof -
  have "calc_values (snd (calc_values data values)) values = calc_values data values"
    unfolding calc_values_run using source_order_distinct by (rule run_rules_idem)
  then show ?thesis by simp
qed

theorem calc_values_idempotent_witness:
  "calc_values (snd (calc_values [ATTR_VOLTAGE \<mapsto> PyFloat (Finite False 3 2),
                                  ATTR_CURRENT \<mapsto> PyFloat (Finite False 1 1)]
       {ATTR_POWER, ATTR_BATTERY_CHARGING, ATTR_RUNTIME}))
     {ATTR_POWER, ATTR_BATTERY_CHARGING, ATTR_RUNTIME}
   = (Normal, [ATTR_VOLTAGE \<mapsto> PyFloat (Finite False 3 2),
               ATTR_CURRENT \<mapsto> PyFloat (Finite False 1 1),
               ATTR_POWER \<mapsto> PyFloat (Finite False 3 3),
               ATTR_BATTERY_CHARGING \<mapsto> PyBool True])"
proof -
  let ?d = "[ATTR_VOLTAGE \<mapsto> PyFloat (Finite False 3 2),
             ATTR_CURRENT \<mapsto> PyFloat (Finite False 1 1)]"
  let ?r = "{ATTR_POWER, ATTR_BATTERY_CHARGING, ATTR_RUNTIME}"
  have "calc_values ?d ?r = (Normal, [ATTR_VOLTAGE \<mapsto> PyFloat (Finite False 3 2),
               ATTR_CURRENT \<mapsto> PyFloat (Finite False 1 1),
               ATTR_POWER \<mapsto> PyFloat (Finite False 3 3),
               ATTR_BATTERY_CHARGING \<mapsto> PyBool True])"
    by (simp add: calc_unfold op_eval float_eval)
  with calc_values_idempotent [of ?d ?r] show ?thesis by simp
qed

text \<open>
  Claim C10. \<open>calc_values\<close> never raises \<open>ZeroDivisionError\<close>. The division is reached
  only when current is less than 0; then \<open>abs(current)\<close> is greater than 0 and the
  division does not raise \<open>ZeroDivisionError\<close>. Dividing by \<open>abs(0)\<close> or \<open>abs(0.0)\<close>
  does raise it, and a mapping with current 0, 0.0 or -0.0 with runtime requested is
  returned unchanged.
\<close>

theorem calc_values_no_zero_division:
  "fst (calc_values data values) \<noteq> Raised ZeroDivisionError
   \<and> fst (calc_runtime values data) \<noteq> Raised ZeroDivisionError
   \<and> (py_lt i (PyInt 0)
        \<longrightarrow> py_gt (py_abs i) (PyInt 0) \<and> py_truediv c (py_abs i) \<noteq> Inl ZeroDivisionError)
   \<and> py_truediv c (py_abs (PyInt 0)) = Inl ZeroDivisionError
   \<and> py_truediv (PyFloat x) (py_abs (PyFloat (Finite s 0 e))) = Inl ZeroDivisionError
   \<and> calc_values [ATTR_CURRENT \<mapsto> PyInt 0, ATTR_CYCLE_CHRG \<mapsto> PyFloat (Finite False 5 1)]
        {ATTR_RUNTIME}
       = (Normal, [ATTR_CURRENT \<mapsto> PyInt 0, ATTR_CYCLE_CHRG \<mapsto> PyFloat (Finite False 5 1)])
   \<and> calc_values [ATTR_CURRENT \<mapsto> PyFloat (Finite False 0 0),
                   ATTR_CYCLE_CHRG \<mapsto> PyFloat (Finite False 5 1)] {ATTR_RUNTIME}
       = (Normal, [ATTR_CURRENT \<mapsto> PyFloat (Finite False 0 0),
                   ATTR_CYCLE_CHRG \<mapsto> PyFloat (Finite False 5 1)])
   \<and> calc_values [ATTR_CURRENT \<mapsto> PyFloat (Finite True 0 0),
                   ATTR_CYCLE_CHRG \<mapsto> PyFloat (Finite False 5 1)] {ATTR_RUNTIME}
       = (Normal, [ATTR_CURRENT \<mapsto> PyFloat (Finite True 0 0),
                   ATTR_CYCLE_CHRG \<mapsto> PyFloat (Finite False 5 1)])"
proof (intro conjI impI)
  show "fst (calc_values data values) \<noteq> Raised ZeroDivisionError"
    unfolding calc_values_run using run_rules_error by fastforce
  show "fst (calc_runtime values data) \<noteq> Raised ZeroDivisionError"
    using apply_rule_raised [of Runtime "values" data ZeroDivisionError]
    by (cases "calc_runtime values data") auto
next
  assume n: "py_lt i (PyInt 0)"
  from n py_lt_zero_cases show "py_gt (py_abs i) (PyInt 0)"
    by (fastforce simp: py_gt_def)
  from n py_truediv_abs_error [of i c ZeroDivisionError]
  show "py_truediv c (py_abs i) \<noteq> Inl ZeroDivisionError" by auto
next
  show "py_truediv c (py_abs (PyInt 0)) = Inl ZeroDivisionError"
    by (rule py_truediv_zero_int)
  show "py_truediv (PyFloat x) (py_abs (PyFloat (Finite s 0 e))) = Inl ZeroDivisionError"
    by (simp add: py_truediv_def bind_err_def)
next
  show "calc_values [ATTR_CURRENT \<mapsto> PyInt 0, ATTR_CYCLE_CHRG \<mapsto> PyFloat (Finite False 5 1)]
        {ATTR_RUNTIME}
       = (Normal, [ATTR_CURRENT \<mapsto> PyInt 0, ATTR_CYCLE_CHRG \<mapsto> PyFloat (Finite False 5 1)])"
    by (simp add: calc_unfold op_eval)
next
  show "calc_values [ATTR_CURRENT \<mapsto> PyFloat (Finite False 0 0),
                   ATTR_CYCLE_CHRG \<mapsto> PyFloat (Finite False 5 1)] {ATTR_RUNTIME}
       = (Normal, [ATTR_CURRENT \<mapsto> PyFloat (Finite False 0 0),
                   ATTR_CYCLE_CHRG \<mapsto> PyFloat (Finite False 5 1)])"
    by (simp add: calc_unfold op_eval)
next
  show "calc_values [ATTR_CURRENT \<mapsto> PyFloat (Finite True 0 0),
                   ATTR_CYCLE_CHRG \<mapsto> PyFloat (Finite False 5 1)] {ATTR_RUNTIME}
       = (Normal, [ATTR_CURRENT \<mapsto> PyFloat (Finite True 0 0),
                   ATTR_CYCLE_CHRG \<mapsto> PyFloat (Finite False 5 1)])"
    by (simp add: calc_unfold op_eval)
qed

theorem calc_values_no_zero_division_witness:
  "py_lt (PyFloat (Finite True 5 0)) (PyInt 0)
   \<and> py_gt (py_abs (PyFloat (Finite True 5 0))) (PyInt 0)
   \<and> py_truediv (PyFloat (Finite False 5 1)) (py_abs (PyFloat (Finite True 5 0)))
       \<noteq> Inl ZeroDivisionError
   \<and> fst (calc_values [ATTR_CURRENT \<mapsto> PyFloat (Finite True 5 0),
                        ATTR_CYCLE_CHRG \<mapsto> PyFloat (Finite False 5 1)] {ATTR_RUNTIME})
       \<noteq> Raised ZeroDivisionError
   \<and> snd (calc_values [ATTR_CURRENT \<mapsto> PyFloat (Finite True 5 0),
                        ATTR_CYCLE_CHRG \<mapsto> PyFloat (Finite False 5 1)] {ATTR_RUNTIME})
       ATTR_RUNTIME = Some (PyInt 7200)"
proof -
  let ?d = "[ATTR_CURRENT \<mapsto> PyFloat (Finite True 5 0),
             ATTR_CYCLE_CHRG \<mapsto> PyFloat (Finite False 5 1)]"
  have l: "py_lt (PyFloat (Finite True 5 0)) (PyInt 0)"
    by (simp add: py_lt_def)
  with calc_values_no_zero_division [of ?d "{ATTR_RUNTIME}" "PyFloat (Finite True 5 0)"
      "PyFloat (Finite False 5 1)"]
  have "py_gt (py_abs (PyFloat (Finite True 5 0))) (PyInt 0)
      \<and> py_truediv (PyFloat (Finite False 5 1)) (py_abs (PyFloat (Finite True 5 0)))
          \<noteq> Inl ZeroDivisionError
      \<and> fst (calc_values ?d {ATTR_RUNTIME}) \<noteq> Raised ZeroDivisionError"
    by blast
  moreover have "snd (calc_values ?d {ATTR_RUNTIME}) ATTR_RUNTIME = Some (PyInt 7200)"
    by (simp add: calc_unfold op_eval float_eval)
  ultimately show ?thesis using l by simp
qed

end
